theory Spec2Isabelle
  imports Main
begin

section \<open>The Luna lead-capture chatbot of js/spotlight.js\<close>

text \<open>
  This theory embeds the class \<open>LunaChatbot\<close> of \<^verbatim>\<open>js/spotlight.js\<close>: its conversation
  state machine (\<open>sendMessage\<close>, \<open>checkIntents\<close>, \<open>startLeadFlow\<close>, \<open>handleFlow\<close>), the
  delivery pipeline (\<open>sendEmailWithRetry\<close>, \<open>saveToLocalStorage\<close>) and the protocol
  generator (\<open>generateSecureProtocol\<close>).

  Conventions of the embedding.
  \<^item> A JavaScript string is a HOL \<open>string\<close>; a \<open>char\<close> stands for one UTF-16 code unit in
    the range 0..255 (Basic Latin and Latin-1 Supplement), which covers every literal the
    modelled code compares its input with. \<open>length\<close> is then JavaScript's \<open>.length\<close>.
  \<^item> JavaScript numbers that count attempts and milliseconds are natural numbers.
  \<^item> The browser (the send collaborator, the analytics hook, \<open>crypto\<close>, the clock, the random
    source and \<open>localStorage\<close>) is an explicit record \<open>world\<close> that every operation takes
    and returns.
  \<^item> An \<open>async\<close> method is run to completion: no other event is interleaved with its awaits.
  \<^item> \<open>console.error\<close> and \<open>console.log\<close> calls, CSS classes and scrolling are left out.
\<close>

subsection \<open>String built-ins\<close>

text \<open>
  White space as \<open>String.prototype.trim\<close> and the regular-expression class \<open>\s\<close> understand
  it (WhiteSpace and LineTerminator of ECMAScript), restricted to code units below 256:
  TAB, LF, VT, FF, CR, SPACE and NO-BREAK SPACE.
\<close>

definition isWhiteSpace :: "char \<Rightarrow> bool" where
  "isWhiteSpace c =
     (c \<in> set [CHR 0x09, CHR 0x0A, CHR 0x0B, CHR 0x0C, CHR 0x0D, CHR 0x20, CHR 0xA0])"

definition trim :: "string \<Rightarrow> string" where
  "trim s = rev (dropWhile isWhiteSpace (rev (dropWhile isWhiteSpace s)))"

text \<open>
  The cased letters among the code units below 256 whose other case is below 256 too:
  A..Z with a..z, and the capitals U+00C0..U+00DE (all but the multiplication sign U+00D7)
  with the small letters U+00E0..U+00FE (all but the division sign U+00F7).
\<close>

definition capitals :: string where
  "capitals = ''ABCDEFGHIJKLMNOPQRSTUVWXYZ'' @
     [CHR 0xC0, CHR 0xC1, CHR 0xC2, CHR 0xC3, CHR 0xC4, CHR 0xC5, CHR 0xC6, CHR 0xC7,
      CHR 0xC8, CHR 0xC9, CHR 0xCA, CHR 0xCB, CHR 0xCC, CHR 0xCD, CHR 0xCE, CHR 0xCF,
      CHR 0xD0, CHR 0xD1, CHR 0xD2, CHR 0xD3, CHR 0xD4, CHR 0xD5, CHR 0xD6,
      CHR 0xD8, CHR 0xD9, CHR 0xDA, CHR 0xDB, CHR 0xDC, CHR 0xDD, CHR 0xDE]"

definition smalls :: string where
  "smalls = ''abcdefghijklmnopqrstuvwxyz'' @
     [CHR 0xE0, CHR 0xE1, CHR 0xE2, CHR 0xE3, CHR 0xE4, CHR 0xE5, CHR 0xE6, CHR 0xE7,
      CHR 0xE8, CHR 0xE9, CHR 0xEA, CHR 0xEB, CHR 0xEC, CHR 0xED, CHR 0xEE, CHR 0xEF,
      CHR 0xF0, CHR 0xF1, CHR 0xF2, CHR 0xF3, CHR 0xF4, CHR 0xF5, CHR 0xF6,
      CHR 0xF8, CHR 0xF9, CHR 0xFA, CHR 0xFB, CHR 0xFC, CHR 0xFD, CHR 0xFE]"

text \<open>
  \<open>String.prototype.toLowerCase\<close> on code units below 256: a capital becomes its small
  letter, every other code unit stays.
\<close>

definition lowerChar :: "char \<Rightarrow> char" where
  "lowerChar c = (case map_of (zip capitals smalls) c of Some d \<Rightarrow> d | None \<Rightarrow> c)"

definition toLowerCase :: "string \<Rightarrow> string" where
  "toLowerCase s = map lowerChar s"

text \<open>
  \<open>String.prototype.toUpperCase\<close> on code units below 256: a small letter becomes its
  capital and the sharp s U+00DF becomes \<open>SS\<close>. The capitals of U+00B5 and U+00FF lie beyond
  U+00FF; those two code units are kept as they are, so the model is exact on strings
  without them.
\<close>

definition upperChar :: "char \<Rightarrow> string" where
  "upperChar c =
     (case map_of (zip smalls capitals) c of
        Some d \<Rightarrow> [d]
      | None \<Rightarrow> if c = CHR 0xDF then ''SS'' else [c])"

definition toUpperCase :: "string \<Rightarrow> string" where
  "toUpperCase s = concat (map upperChar s)"

text \<open>\<open>s.startsWith(t)\<close> and \<open>s.includes(t)\<close>.\<close>

fun startsWith :: "string \<Rightarrow> string \<Rightarrow> bool" where
  "startsWith s [] = True"
| "startsWith [] (d # t) = False"
| "startsWith (c # s) (d # t) = (c = d \<and> startsWith s t)"

fun includes_str :: "string \<Rightarrow> string \<Rightarrow> bool" where
  "includes_str [] t = startsWith [] t"
| "includes_str (c # s) t = (startsWith (c # s) t \<or> includes_str s t)"

text \<open>\<open>s.split(' ')[0]\<close>: the part of \<open>s\<close> before its first occurrence of the separator.\<close>

definition split_first :: "char \<Rightarrow> string \<Rightarrow> string" where
  "split_first sep s = takeWhile (\<lambda>c. c \<noteq> sep) s"

text \<open>\<open>s.substring(a, b)\<close> for \<open>a \<le> b\<close>.\<close>

definition substring :: "nat \<Rightarrow> nat \<Rightarrow> string \<Rightarrow> string" where
  "substring a b s = take (b - a) (drop a s)"

text \<open>\<open>n.toString(36)\<close> for a non-negative integer \<open>n\<close>.\<close>

definition digit36 :: "nat \<Rightarrow> char" where
  "digit36 d = ''0123456789abcdefghijklmnopqrstuvwxyz'' ! d"

fun toString36 :: "nat \<Rightarrow> string" where
  "toString36 n = (if n < 36 then [digit36 n] else toString36 (n div 36) @ [digit36 (n mod 36)])"

text \<open>
  \<open>encodeURIComponent\<close>: the unreserved characters stay, every other code unit is written
  as the percent-escaped bytes of its UTF-8 encoding (one byte below U+0080, two bytes from
  U+0080 to U+00FF).
\<close>

definition unreserved :: "char \<Rightarrow> bool" where
  "unreserved c =
     (c \<in> set (''ABCDEFGHIJKLMNOPQRSTUVWXYZ'' @ ''abcdefghijklmnopqrstuvwxyz'' @
               ''0123456789'' @ ''-_.!~*'' @ [CHR 0x27] @ ''()''))"

definition hexDigit :: "nat \<Rightarrow> char" where
  "hexDigit d = ''0123456789ABCDEF'' ! d"

definition percentByte :: "nat \<Rightarrow> string" where
  "percentByte b = [CHR ''%'', hexDigit (b div 16), hexDigit (b mod 16)]"

definition encodeChar :: "char \<Rightarrow> string" where
  "encodeChar c =
     (let n = of_char c :: nat
      in if unreserved c then [c]
         else if n < 128 then percentByte n
         else percentByte (192 + n div 64) @ percentByte (128 + n mod 64))"

definition encodeURIComponent :: "string \<Rightarrow> string" where
  "encodeURIComponent s = concat (map encodeChar s)"

subsection \<open>Regular expressions\<close>

text \<open>
  The fragment of regular expressions that the e-mail pattern of \<open>handleFlow\<close> needs, with
  character classes as predicates. \<open>RegExp.prototype.test\<close> on a pattern anchored by \<open>^\<close>
  and \<open>$\<close> (no flags) asks whether the whole string belongs to the language of the
  pattern; \<open>matches\<close> decides it by derivatives.
\<close>

datatype regex =
    Nothing
  | Epsilon
  | CharClass "char \<Rightarrow> bool"
  | Union regex regex
  | Concat regex regex
  | Repeat regex

fun nullable :: "regex \<Rightarrow> bool" where
  "nullable Nothing = False"
| "nullable Epsilon = True"
| "nullable (CharClass p) = False"
| "nullable (Union r q) = (nullable r \<or> nullable q)"
| "nullable (Concat r q) = (nullable r \<and> nullable q)"
| "nullable (Repeat r) = True"

fun deriv :: "char \<Rightarrow> regex \<Rightarrow> regex" where
  "deriv c Nothing = Nothing"
| "deriv c Epsilon = Nothing"
| "deriv c (CharClass p) = (if p c then Epsilon else Nothing)"
| "deriv c (Union r q) = Union (deriv c r) (deriv c q)"
| "deriv c (Concat r q) =
     (if nullable r then Union (Concat (deriv c r) q) (deriv c q) else Concat (deriv c r) q)"
| "deriv c (Repeat r) = Concat (deriv c r) (Repeat r)"

fun matches :: "regex \<Rightarrow> string \<Rightarrow> bool" where
  "matches r [] = nullable r"
| "matches r (c # s) = matches (deriv c r) s"

text \<open>
  The language of a pattern, by which \<open>matches\<close> is justified below: the strings the
  pattern denotes, with \<open>star A\<close> the concatenations of any number of strings of \<open>A\<close>.
\<close>

inductive_set star :: "string set \<Rightarrow> string set" for A :: "string set" where
  star_empty: "[] \<in> star A"
| star_more: "u \<in> A \<Longrightarrow> v \<in> star A \<Longrightarrow> u @ v \<in> star A"

fun lang :: "regex \<Rightarrow> string set" where
  "lang Nothing = {}"
| "lang Epsilon = {[]}"
| "lang (CharClass p) = {[c] | c. p c}"
| "lang (Union r q) = lang r \<union> lang q"
| "lang (Concat r q) = {u @ v | u v. u \<in> lang r \<and> v \<in> lang q}"
| "lang (Repeat r) = star (lang r)"

text \<open>The postfix operator \<open>+\<close>: one or more repetitions.\<close>

definition OneOrMore :: "regex \<Rightarrow> regex" where
  "OneOrMore r = Concat r (Repeat r)"

text \<open>The class \<open>[^\s@]\<close> and a literal character.\<close>

definition notSpaceAt :: "char \<Rightarrow> bool" where
  "notSpaceAt c = (\<not> isWhiteSpace c \<and> c \<noteq> CHR ''@'')"

definition Lit :: "char \<Rightarrow> regex" where
  "Lit d = CharClass (\<lambda>c. c = d)"

text \<open>The pattern \<^verbatim>\<open>/^[^\s@]+@[^\s@]+\.[^\s@]+$/\<close> of the case \<open>EMAIL\<close>.\<close>

definition emailRegex :: regex where
  "emailRegex =
     Concat (OneOrMore (CharClass notSpaceAt))
       (Concat (Lit CHR ''@'')
         (Concat (OneOrMore (CharClass notSpaceAt))
           (Concat (Lit CHR ''.'')
             (OneOrMore (CharClass notSpaceAt)))))"

subsection \<open>The chatbot and the browser around it\<close>

text \<open>The values \<open>this.flowState\<close> takes.\<close>

datatype flow_state = IDLE | NAME | ROLE | EMAIL | DESAFIO | DUVIDA

text \<open>
  \<open>this.leadData\<close>: an object that starts as \<open>{}\<close> and receives the properties \<open>nome\<close>,
  \<open>cargo\<close>, \<open>email\<close>, \<open>desafio\<close> and \<open>mensagem\<close>; \<open>None\<close> is a property not yet set.
\<close>

record lead_data =
  nome :: "string option"
  cargo :: "string option"
  email :: "string option"
  desafio :: "string option"
  mensagem :: "string option"

definition empty_lead :: lead_data where
  "empty_lead = \<lparr>nome = None, cargo = None, email = None, desafio = None, mensagem = None\<rparr>"

text \<open>A property inside a template literal: a missing one prints as \<open>undefined\<close>.\<close>

definition interpolate :: "string option \<Rightarrow> string" where
  "interpolate v = (case v of None \<Rightarrow> ''undefined'' | Some s \<Rightarrow> s)"

text \<open>
  The replies of the bot. Each constructor is one of the template literals of the source,
  its arguments the values interpolated into it: the first name in the role prompt, the
  protocol and the WhatsApp link in the confirmation, the WhatsApp link in the fallback.
\<close>

datatype response =
    NamePrompt
  | GreetingReply
  | OptInPrompt
  | NameRejected
  | RolePrompt string
  | EmailPrompt
  | EmailRejected
  | ChallengePrompt
  | MessagePrompt
  | SuccessReply string string
  | FallbackReply string
  | StartOver

text \<open>
  What one call of \<open>window.sendContactEmail\<close> does: its promise is fulfilled, its promise is
  rejected, or the call itself throws.
\<close>

datatype send_outcome = Fulfils | Rejects | Throws

text \<open>What can be thrown inside the modelled code.\<close>

datatype js_error = NotAFunction | SendRejected | SendThrew | Error string

text \<open>The object that \<open>saveToLocalStorage\<close> serialises, and the analytics events.\<close>

record backup =
  data :: lead_data
  timestamp :: string

datatype event =
    ChatbotInitiated string
  | LeadSubmitted string string "string option"

text \<open>
  The browser. \<open>sendContactEmail\<close> is \<open>None\<close> when \<open>window.sendContactEmail\<close> is missing;
  otherwise it tells the outcome of each call from the number of calls made before it.
  \<open>sent\<close> lists the arguments of the calls made so far and \<open>waits\<close> the delays, in
  milliseconds, of the back-off timers awaited so far. \<open>trackEvent\<close> tells whether
  \<open>window.trackEvent\<close> exists and \<open>tracked\<close> what it received. \<open>randomUUID\<close> is \<open>None\<close> when
  \<open>window.crypto.randomUUID\<close> is missing; it, \<open>dateNow\<close> (\<open>Date.now()\<close>) and \<open>mathRandom\<close>
  (\<open>Math.random().toString(36)\<close>) give their value from the number \<open>generated\<close> of protocols
  generated before. \<open>isoTime\<close> is \<open>new Date().toISOString()\<close>, one reading of the clock for
  the whole run. \<open>setItemThrows\<close> tells whether \<open>localStorage.setItem\<close> throws (quota exceeded,
  storage disabled). The value stored under a key is the object before \<open>JSON.stringify\<close>.
\<close>

record world =
  sendContactEmail :: "(nat \<Rightarrow> send_outcome) option"
  sent :: "lead_data list"
  waits :: "nat list"
  trackEvent :: bool
  tracked :: "event list"
  randomUUID :: "(nat \<Rightarrow> string) option"
  dateNow :: "nat \<Rightarrow> nat"
  mathRandom :: "nat \<Rightarrow> string"
  generated :: nat
  isoTime :: string
  setItemThrows :: bool
  localStorage :: "string \<rightharpoonup> backup"

text \<open>
  The children of \<open>chatMessages\<close>, and the chatbot: its two fields, the value of the input
  box, the message list, and the messages captured by the callbacks that \<open>sendMessage\<close> has
  scheduled with \<open>setTimeout\<close> and that have not run yet.
\<close>

datatype chat_node = UserBubble string | BotBubble response | TypingIndicator

record chatbot =
  flowState :: flow_state
  leadData :: lead_data
  chatInput :: string
  chatMessages :: "chat_node list"
  pending :: "string list"

subsection \<open>The protocol generator\<close>

text \<open>
  \<open>generateSecureProtocol\<close>: with \<open>crypto.randomUUID\<close> the first group of a fresh UUID in
  capitals, otherwise the time stamp in base 36 and four base-36 digits of a random number,
  in capitals; both behind the tag \<open>GLX-\<close>.
\<close>

definition generateSecureProtocol :: "world \<Rightarrow> string \<times> world" where
  "generateSecureProtocol w =
     (let i = generated w;
          w' = w\<lparr>generated := Suc i\<rparr>
      in case randomUUID w of
           Some uuid \<Rightarrow>
             (let shortId = toUpperCase (split_first CHR ''-'' (uuid i))
              in (''GLX-'' @ shortId, w'))
         | None \<Rightarrow>
             (let timestamp = toUpperCase (toString36 (dateNow w i));
                  random = toUpperCase (substring 2 6 (mathRandom w i))
              in (''GLX-'' @ timestamp @ ''-'' @ random, w')))"

subsection \<open>The delivery pipeline\<close>

text \<open>
  One evaluation of \<open>await window.sendContactEmail(data)\<close>: what it throws, if anything.
  Calling a missing function throws too. A call that takes place is recorded in \<open>sent\<close>.
\<close>

definition awaitSend :: "lead_data \<Rightarrow> world \<Rightarrow> (js_error + unit) \<times> world" where
  "awaitSend d w =
     (case sendContactEmail w of
        None \<Rightarrow> (Inl NotAFunction, w)
      | Some f \<Rightarrow>
          (case f (length (sent w)) of
             Fulfils \<Rightarrow> Inr ()
           | Rejects \<Rightarrow> Inl SendRejected
           | Throws \<Rightarrow> Inl SendThrew,
           w\<lparr>sent := sent w @ [d]\<rparr>))"

text \<open>\<open>await new Promise(resolve => setTimeout(resolve, delay))\<close>.\<close>

definition awaitDelay :: "nat \<Rightarrow> world \<Rightarrow> world" where
  "awaitDelay delay w = w\<lparr>waits := waits w @ [delay]\<rparr>"

text \<open>
  The loop of \<open>sendEmailWithRetry\<close> from the value \<open>attempt\<close> of its counter on. The result
  is what the \<open>async\<close> method settles with: \<open>Inr\<close> the boolean it returns, \<open>Inl\<close> an error
  that escapes it.
\<close>

function retryLoop :: "nat \<Rightarrow> nat \<Rightarrow> lead_data \<Rightarrow> world \<Rightarrow> (js_error + bool) \<times> world" where
  "retryLoop attempt maxRetries d w =
     (if attempt \<le> maxRetries then
        (case awaitSend d w of
           (Inr u, w1) \<Rightarrow> (Inr True, w1)
         | (Inl error, w1) \<Rightarrow>
             if attempt < maxRetries
             then retryLoop (Suc attempt) maxRetries d (awaitDelay (2 ^ (attempt - 1) * 1000) w1)
             else (Inr False, w1))
      else (Inr False, w))"
  by pat_completeness auto
termination
  by (relation "measure (\<lambda>(attempt, maxRetries, d, w). Suc maxRetries - attempt)") auto

text \<open>
  \<open>sendEmailWithRetry(data, maxRetries = 3)\<close>: the second argument is \<open>None\<close> when the caller
  leaves it out, and the parameter is then 3. The counter starts at 1, so that the
  \<open>attempt - 1\<close> of the loop is never cut off at zero.
\<close>

definition defaultTo :: "nat \<Rightarrow> nat option \<Rightarrow> nat" where
  "defaultTo n argument = (case argument of None \<Rightarrow> n | Some m \<Rightarrow> m)"

definition sendEmailWithRetry ::
  "lead_data \<Rightarrow> nat option \<Rightarrow> world \<Rightarrow> (js_error + bool) \<times> world" where
  "sendEmailWithRetry d maxRetries w = retryLoop 1 (defaultTo 3 maxRetries) d w"

text \<open>
  \<open>saveToLocalStorage\<close>: the backup goes under the key \<open>glx_lead_backup\<close>; an exception of
  \<open>setItem\<close> is caught and dropped.
\<close>

definition saveToLocalStorage :: "lead_data \<Rightarrow> world \<Rightarrow> world" where
  "saveToLocalStorage ld w =
     (let backup = \<lparr>data = ld, timestamp = isoTime w\<rparr>
      in if setItemThrows w then w
         else w\<lparr>localStorage := (localStorage w)(''glx_lead_backup'' \<mapsto> backup)\<rparr>)"

subsection \<open>The conversation state machine\<close>

text \<open>\<open>startLeadFlow\<close>.\<close>

definition startLeadFlow :: "world \<Rightarrow> chatbot \<Rightarrow> response \<times> chatbot \<times> world" where
  "startLeadFlow w b =
     (let b' = b\<lparr>flowState := NAME, leadData := empty_lead\<rparr>;
          w' = (if trackEvent w then w\<lparr>tracked := tracked w @ [ChatbotInitiated (isoTime w)]\<rparr>
                else w)
      in (NamePrompt, b', w'))"

text \<open>\<open>checkIntents\<close> and its list of triggers.\<close>

definition triggers :: "string list" where
  "triggers =
     [''d'' @ [CHR 0xFA] @ ''vida'', ''duvida'', ''ajuda'', ''suporte'', ''erro'', ''problema'',
      ''fechar'', ''contratar'', ''comprar'', ''pre'' @ [CHR 0xE7] @ ''o'', ''preco'',
      ''valor'', ''or'' @ [CHR 0xE7] @ ''amento'', ''orcamento'', ''whatsapp'', ''zap'',
      ''quero'']"

definition checkIntents :: "world \<Rightarrow> chatbot \<Rightarrow> string \<Rightarrow> response \<times> chatbot \<times> world" where
  "checkIntents w b message =
     (let msg = toLowerCase message
      in if list_ex (\<lambda>t. includes_str msg t) triggers then startLeadFlow w b
         else if includes_str msg (''ol'' @ [CHR 0xE1]) \<or> includes_str msg ''oi''
                 \<or> includes_str msg ''bom''
         then (GreetingReply, b, w)
         else (OptInPrompt, b, w))"

text \<open>The text and the link of the WhatsApp button.\<close>

definition waText :: "lead_data \<Rightarrow> string \<Rightarrow> string" where
  "waText ld protocol =
     ''Ol'' @ [CHR 0xE1] @ ''! Sou '' @ interpolate (nome ld) @ '' ('' @ interpolate (cargo ld)
       @ '').'' @ [CHR 0x0A] @ ''Meu desafio '' @ [CHR 0xE9] @ '': '' @ interpolate (desafio ld)
       @ ''.'' @ [CHR 0x0A] @ ''Protocolo: '' @ protocol"

definition errorNote :: string where
  "errorNote =
     [CHR 0x0A, CHR 0x0A] @ ''(Enviado via WhatsApp pois o formul'' @ [CHR 0xE1]
       @ ''rio apresentou erro)''"

definition waLink :: "string \<Rightarrow> string" where
  "waLink text = ''https://wa.me/5511944223257?text='' @ encodeURIComponent text"

text \<open>
  The case \<open>DUVIDA\<close> of \<open>handleFlow\<close> in three parts. \<open>deliver\<close> is the \<open>if\<close> statement of the
  \<open>try\<close> block: it throws (\<open>Inl\<close>) when the send collaborator is missing and when
  \<open>sendEmailWithRetry\<close> reports failure.
\<close>

definition deliver :: "lead_data \<Rightarrow> world \<Rightarrow> (js_error + unit) \<times> world" where
  "deliver ld w =
     (if sendContactEmail w \<noteq> None then
        (case sendEmailWithRetry ld (Some 3) w of
           (Inr success, w') \<Rightarrow>
             (if \<not> success then Inl (Error ''EmailJS failed after retries'') else Inr (), w')
         | (Inl error, w') \<Rightarrow> (Inl error, w'))
      else (Inl (Error ''Configuration Error''), w))"

text \<open>The rest of the \<open>try\<close> block, run when \<open>deliver\<close> has not thrown.\<close>

definition onDelivered :: "string \<Rightarrow> world \<Rightarrow> chatbot \<Rightarrow> response \<times> chatbot \<times> world" where
  "onDelivered protocol w b =
     (let b' = b\<lparr>flowState := IDLE\<rparr>;
          w' = (if trackEvent w
                then w\<lparr>tracked := tracked w
                        @ [LeadSubmitted protocol ''chatbot'' (desafio (leadData b'))]\<rparr>
                else w);
          text = waText (leadData b') protocol
      in (SuccessReply protocol (waLink text), b', w'))"

text \<open>The \<open>catch\<close> block.\<close>

definition onError :: "world \<Rightarrow> chatbot \<Rightarrow> response \<times> chatbot \<times> world" where
  "onError w b =
     (let w1 = saveToLocalStorage (leadData b) w;
          (protocol, w2) = generateSecureProtocol w1;
          text = waText (leadData b) protocol @ errorNote
      in (FallbackReply (waLink text), b, w2))"

text \<open>\<open>handleFlow\<close>.\<close>

definition handleFlow :: "world \<Rightarrow> chatbot \<Rightarrow> string \<Rightarrow> response \<times> chatbot \<times> world" where
  "handleFlow w b input =
     (let cleanInput = trim input
      in case flowState b of
           NAME \<Rightarrow>
             if length cleanInput < 3 then (NameRejected, b, w)
             else (RolePrompt (split_first CHR '' '' cleanInput),
                   b\<lparr>leadData := (leadData b)\<lparr>nome := Some cleanInput\<rparr>, flowState := ROLE\<rparr>, w)
         | ROLE \<Rightarrow>
             (EmailPrompt,
              b\<lparr>leadData := (leadData b)\<lparr>cargo := Some cleanInput\<rparr>, flowState := EMAIL\<rparr>, w)
         | EMAIL \<Rightarrow>
             if \<not> matches emailRegex cleanInput then (EmailRejected, b, w)
             else (ChallengePrompt,
                   b\<lparr>leadData := (leadData b)\<lparr>email := Some cleanInput\<rparr>, flowState := DESAFIO\<rparr>,
                   w)
         | DESAFIO \<Rightarrow>
             (MessagePrompt,
              b\<lparr>leadData := (leadData b)\<lparr>desafio := Some cleanInput\<rparr>, flowState := DUVIDA\<rparr>, w)
         | DUVIDA \<Rightarrow>
             (let b1 = b\<lparr>leadData := (leadData b)\<lparr>mensagem := Some cleanInput\<rparr>\<rparr>;
                  (protocol, w1) = generateSecureProtocol w
              in case deliver (leadData b1) w1 of
                   (Inr u, w2) \<Rightarrow> onDelivered protocol w2 b1
                 | (Inl error, w2) \<Rightarrow> onError w2 b1)
         | IDLE \<Rightarrow> (StartOver, b\<lparr>flowState := IDLE\<rparr>, w))"

subsection \<open>The chat session\<close>

text \<open>
  \<open>addMessage\<close>, \<open>showTyping\<close> and \<open>hideTyping\<close> on the list of children of \<open>chatMessages\<close>;
  \<open>hideTyping\<close> removes the first typing indicator, the one \<open>getElementById\<close> finds.
\<close>

definition addMessage :: "chat_node \<Rightarrow> chatbot \<Rightarrow> chatbot" where
  "addMessage node b = b\<lparr>chatMessages := chatMessages b @ [node]\<rparr>"

definition showTyping :: "chatbot \<Rightarrow> chatbot" where
  "showTyping b = b\<lparr>chatMessages := chatMessages b @ [TypingIndicator]\<rparr>"

definition hideTyping :: "chatbot \<Rightarrow> chatbot" where
  "hideTyping b = b\<lparr>chatMessages := remove1 TypingIndicator (chatMessages b)\<rparr>"

text \<open>
  \<open>sendMessage\<close> up to its call of \<open>setTimeout\<close>, which leaves the message in \<open>pending\<close>.
\<close>

definition sendMessage :: "chatbot \<Rightarrow> chatbot" where
  "sendMessage b =
     (let message = trim (chatInput b)
      in if message = [] then b
         else (let b1 = addMessage (UserBubble message) b;
                   b2 = b1\<lparr>chatInput := []\<rparr>;
                   b3 = showTyping b2
               in b3\<lparr>pending := pending b3 @ [message]\<rparr>))"

text \<open>
  The body of the callback: the message goes to \<open>handleFlow\<close> outside \<open>IDLE\<close> and to
  \<open>checkIntents\<close> in \<open>IDLE\<close>.
\<close>

definition respond :: "world \<Rightarrow> chatbot \<Rightarrow> string \<Rightarrow> response \<times> chatbot \<times> world" where
  "respond w b message =
     (if flowState b \<noteq> IDLE then handleFlow w b message else checkIntents w b message)"

text \<open>The oldest scheduled callback runs, one second after its \<open>sendMessage\<close>.\<close>

definition runCallback :: "world \<Rightarrow> chatbot \<Rightarrow> chatbot \<times> world" where
  "runCallback w b =
     (case pending b of
        [] \<Rightarrow> (b, w)
      | message # rest \<Rightarrow>
          (let b1 = hideTyping (b\<lparr>pending := rest\<rparr>);
               (response, b2, w') = respond w b1 message
           in (addMessage (BotBubble response) b2, w')))"

subsection \<open>Conversations and sample browsers\<close>

text \<open>
  A conversation: the messages reach the callback body one after the other, each after
  the one before it has been answered. The result lists the replies.
\<close>

fun converse :: "world \<Rightarrow> chatbot \<Rightarrow> string list \<Rightarrow> response list \<times> chatbot \<times> world" where
  "converse w b [] = ([], b, w)"
| "converse w b (message # rest) =
     (let (response, b1, w1) = respond w b message;
          (responses, b2, w2) = converse w1 b1 rest
      in (response # responses, b2, w2))"

text \<open>The chatbot as the constructor leaves it.\<close>

definition newChatbot :: chatbot where
  "newChatbot =
     \<lparr>flowState = IDLE, leadData = empty_lead, chatInput = [], chatMessages = [], pending = []\<rparr>"

text \<open>
  A browser with analytics, \<open>crypto.randomUUID\<close> and a working \<open>localStorage\<close>, around a
  given send collaborator; and four send collaborators.
\<close>

definition sampleBrowser :: "(nat \<Rightarrow> send_outcome) option \<Rightarrow> world" where
  "sampleBrowser send =
     \<lparr>sendContactEmail = send, sent = [], waits = [], trackEvent = True, tracked = [],
      randomUUID = Some (\<lambda>i. if i = 0 then ''a3f8b7c2-6d1e-4f5a-9b0c-1d2e3f4a5b6c''
                              else ''0c9e51d7-2b3a-4c4d-8e5f-6a7b8c9d0e1f''),
      dateNow = (\<lambda>i. 1000 + i), mathRandom = (\<lambda>i. ''0.k3x9q2m''), generated = 0,
      isoTime = ''2024-05-01T12:00:00.000Z'', setItemThrows = False,
      localStorage = Map.empty\<rparr>"

definition fulfilsAlways :: "nat \<Rightarrow> send_outcome" where
  "fulfilsAlways i = Fulfils"

definition rejectsAlways :: "nat \<Rightarrow> send_outcome" where
  "rejectsAlways i = Rejects"

definition throwsAlways :: "nat \<Rightarrow> send_outcome" where
  "throwsAlways i = Throws"

definition failsTwice :: "nat \<Rightarrow> send_outcome" where
  "failsTwice i = (if i = 0 then Rejects else if i = 1 then Throws else Fulfils)"

text \<open>A lead with its five fields, as \<open>sendEmailWithRetry\<close> receives it.\<close>

definition sampleLead :: lead_data where
  "sampleLead =
     \<lparr>nome = Some ''Ana Lima'', cargo = Some ''Diretora'', email = Some ''ana@clinica.com'',
      desafio = Some ''Custos'', mensagem = Some ''Sem duvida''\<rparr>"

text \<open>
  The six messages of a complete conversation that leaves \<open>sampleLead\<close>, and the chatbot
  just before the last of them.
\<close>

definition sampleMessages :: "string list" where
  "sampleMessages =
     [''quero or'' @ [CHR 0xE7] @ ''amento'', ''Ana Lima'', ''Diretora'', ''ana@clinica.com'',
      ''Custos'', ''Sem duvida'']"

definition closingChatbot :: chatbot where
  "closingChatbot = newChatbot\<lparr>flowState := DUVIDA, leadData := sampleLead\<lparr>mensagem := None\<rparr>\<rparr>"

section \<open>Properties\<close>

subsection \<open>Strings\<close>

lemma trim_blank: "(\<forall>c \<in> set s. isWhiteSpace c) \<Longrightarrow> trim s = []"
proof -
  assume "\<forall>c \<in> set s. isWhiteSpace c"
  then have blank: "dropWhile isWhiteSpace s = []" by simp
  show ?thesis unfolding trim_def blank by simp
qed

lemma startsWith_iff: "startsWith s t \<longleftrightarrow> (\<exists>post. s = t @ post)"
  by (induction s t rule: startsWith.induct) auto

lemma includes_str_iff: "includes_str s t \<longleftrightarrow> (\<exists>pre post. s = pre @ t @ post)"
proof (induction s)
  case Nil
  show ?case by (auto simp: startsWith_iff)
next
  case (Cons c s)
  show ?case
  proof
    assume "includes_str (c # s) t"
    then consider "startsWith (c # s) t" | "includes_str s t" by auto
    then show "\<exists>pre post. c # s = pre @ t @ post"
    proof cases
      case 1
      then obtain post where "c # s = t @ post" by (auto simp: startsWith_iff)
      then have "c # s = [] @ t @ post" by simp
      then show ?thesis by blast
    next
      case 2
      then obtain pre post where "s = pre @ t @ post" using Cons.IH by blast
      then have "c # s = (c # pre) @ t @ post" by simp
      then show ?thesis by blast
    qed
  next
    assume "\<exists>pre post. c # s = pre @ t @ post"
    then obtain pre post where eq: "c # s = pre @ t @ post" by blast
    show "includes_str (c # s) t"
    proof (cases pre)
      case Nil
      with eq have "startsWith (c # s) t" by (auto simp: startsWith_iff)
      then show ?thesis by simp
    next
      case (Cons d pre')
      with eq have "s = pre' @ t @ post" by simp
      then have "includes_str s t" using Cons.IH by blast
      then show ?thesis by simp
    qed
  qed
qed

subsection \<open>Regular expressions\<close>

text \<open>The matcher decides membership in the language of the pattern.\<close>

lemma nullable_lang: "nullable r \<longleftrightarrow> [] \<in> lang r"
  by (induction r) (auto intro: star_empty)

lemma star_cons:
  "c # s \<in> star A \<longleftrightarrow> (\<exists>u v. s = u @ v \<and> c # u \<in> A \<and> v \<in> star A)"
proof
  assume "c # s \<in> star A"
  then show "\<exists>u v. s = u @ v \<and> c # u \<in> A \<and> v \<in> star A"
  proof (induction "c # s" arbitrary: s rule: star.induct)
    case (star_more u v)
    show ?case
    proof (cases u)
      case Nil
      with star_more show ?thesis by simp
    next
      case (Cons d u')
      with star_more.hyps have "s = u' @ v" "c # u' \<in> A" by auto
      with star_more.hyps(2) show ?thesis by blast
    qed
  qed
next
  assume "\<exists>u v. s = u @ v \<and> c # u \<in> A \<and> v \<in> star A"
  then obtain u v where "s = u @ v" "c # u \<in> A" "v \<in> star A" by blast
  then show "c # s \<in> star A" using star_more [of "c # u" A v] by simp
qed

lemma concat_cons:
  "c # s \<in> {u @ v | u v. u \<in> A \<and> v \<in> B} \<longleftrightarrow>
     (\<exists>u v. s = u @ v \<and> c # u \<in> A \<and> v \<in> B) \<or> ([] \<in> A \<and> c # s \<in> B)"
proof
  assume "c # s \<in> {u @ v | u v. u \<in> A \<and> v \<in> B}"
  then obtain u v where uv: "c # s = u @ v" "u \<in> A" "v \<in> B" by blast
  show "(\<exists>u v. s = u @ v \<and> c # u \<in> A \<and> v \<in> B) \<or> ([] \<in> A \<and> c # s \<in> B)"
  proof (cases u)
    case Nil
    with uv show ?thesis by simp
  next
    case (Cons d u')
    with uv have "s = u' @ v" "c # u' \<in> A" by auto
    with uv(3) show ?thesis by blast
  qed
next
  assume "(\<exists>u v. s = u @ v \<and> c # u \<in> A \<and> v \<in> B) \<or> ([] \<in> A \<and> c # s \<in> B)"
  then show "c # s \<in> {u @ v | u v. u \<in> A \<and> v \<in> B}"
  proof
    assume "\<exists>u v. s = u @ v \<and> c # u \<in> A \<and> v \<in> B"
    then obtain u v where "s = u @ v" "c # u \<in> A" "v \<in> B" by blast
    then have "c # s = (c # u) @ v \<and> c # u \<in> A \<and> v \<in> B" by simp
    then show ?thesis by blast
  next
    assume "[] \<in> A \<and> c # s \<in> B"
    then have "c # s = [] @ (c # s) \<and> [] \<in> A \<and> c # s \<in> B" by simp
    then show ?thesis by blast
  qed
qed

lemma deriv_lang: "s \<in> lang (deriv c r) \<longleftrightarrow> c # s \<in> lang r"
proof (induction r arbitrary: s)
  case (Concat r q)
  have "c # s \<in> lang (Concat r q) \<longleftrightarrow>
          (\<exists>u v. s = u @ v \<and> c # u \<in> lang r \<and> v \<in> lang q) \<or> ([] \<in> lang r \<and> c # s \<in> lang q)"
    using concat_cons [of c s "lang r" "lang q"] by simp
  with Concat show ?case by (auto simp: nullable_lang)
next
  case (Repeat r)
  then show ?case by (auto simp: star_cons)
qed auto

lemma matches_lang: "matches r s \<longleftrightarrow> s \<in> lang r"
  by (induction s arbitrary: r) (simp_all add: nullable_lang deriv_lang)

lemma star_class: "star {[c] | c. p c} = {s. \<forall>c \<in> set s. p c}"
proof (intro equalityI subsetI)
  fix s assume "s \<in> star {[c] | c. p c}"
  then show "s \<in> {s. \<forall>c \<in> set s. p c}" by induction auto
next
  fix s assume "s \<in> {s. \<forall>c \<in> set s. p c}"
  then have "\<forall>c \<in> set s. p c" by simp
  then show "s \<in> star {[c] | c. p c}"
  proof (induction s)
    case Nil
    show ?case by (rule star_empty)
  next
    case (Cons d s)
    then have "[d] \<in> {[c] | c. p c}" "s \<in> star {[c] | c. p c}" by auto
    then have "[d] @ s \<in> star {[c] | c. p c}" by (rule star_more)
    then show ?case by simp
  qed
qed

lemma in_lang_Concat:
  "s \<in> lang (Concat r q) \<longleftrightarrow> (\<exists>u v. s = u @ v \<and> u \<in> lang r \<and> v \<in> lang q)"
  by auto

lemma in_lang_Lit: "s \<in> lang (Lit d) \<longleftrightarrow> s = [d]"
  by (auto simp: Lit_def)

lemma in_lang_OneOrMore_class:
  "s \<in> lang (OneOrMore (CharClass p)) \<longleftrightarrow> s \<noteq> [] \<and> (\<forall>c \<in> set s. p c)"
proof
  assume "s \<in> lang (OneOrMore (CharClass p))"
  then show "s \<noteq> [] \<and> (\<forall>c \<in> set s. p c)"
    by (auto simp: OneOrMore_def star_class)
next
  assume "s \<noteq> [] \<and> (\<forall>c \<in> set s. p c)"
  then obtain x xs where "s = x # xs" "p x" "\<forall>c \<in> set xs. p c" by (cases s) auto
  then have "s = [x] @ xs \<and> [x] \<in> lang (CharClass p) \<and> xs \<in> lang (Repeat (CharClass p))"
    by (simp add: star_class)
  then show "s \<in> lang (OneOrMore (CharClass p))"
    unfolding OneOrMore_def in_lang_Concat by blast
qed

lemma lang_ConcatE:
  assumes "s \<in> lang (Concat r q)"
  obtains u v where "s = u @ v" "u \<in> lang r" "v \<in> lang q"
  using assms by auto

lemma lang_ConcatI: "u \<in> lang r \<Longrightarrow> v \<in> lang q \<Longrightarrow> u @ v \<in> lang (Concat r q)"
  by auto

lemma emailRegex_shape:
  "s \<in> lang emailRegex \<longleftrightarrow>
     (\<exists>l d t. s = l @ ''@'' @ d @ ''.'' @ t \<and> l \<noteq> [] \<and> d \<noteq> [] \<and> t \<noteq> []
        \<and> (\<forall>c \<in> set (l @ d @ t). \<not> isWhiteSpace c \<and> c \<noteq> CHR ''@''))"
  (is "?L \<longleftrightarrow> ?R")
proof
  let ?A = "OneOrMore (CharClass notSpaceAt)"
  assume ?L
  then have "s \<in> lang (Concat ?A (Concat (Lit CHR ''@'') (Concat ?A (Concat (Lit CHR ''.'') ?A))))"
    by (simp only: emailRegex_def)
  then obtain l r1 where 1: "s = l @ r1" "l \<in> lang ?A"
      "r1 \<in> lang (Concat (Lit CHR ''@'') (Concat ?A (Concat (Lit CHR ''.'') ?A)))"
    by (rule lang_ConcatE)
  from 1(3) obtain a r2 where 2: "r1 = a @ r2" "a \<in> lang (Lit CHR ''@'')"
      "r2 \<in> lang (Concat ?A (Concat (Lit CHR ''.'') ?A))"
    by (rule lang_ConcatE)
  from 2(3) obtain d r3 where 3: "r2 = d @ r3" "d \<in> lang ?A"
      "r3 \<in> lang (Concat (Lit CHR ''.'') ?A)"
    by (rule lang_ConcatE)
  from 3(3) obtain p t where 4: "r3 = p @ t" "p \<in> lang (Lit CHR ''.'')" "t \<in> lang ?A"
    by (rule lang_ConcatE)
  from 2(2) 4(2) have "a = ''@''" "p = ''.''" by (simp_all only: in_lang_Lit)
  with 1(1) 2(1) 3(1) 4(1) have "s = l @ ''@'' @ d @ ''.'' @ t" by simp
  moreover from 1(2) 3(2) 4(3) have "l \<noteq> []" "d \<noteq> []" "t \<noteq> []"
    "\<forall>c \<in> set (l @ d @ t). \<not> isWhiteSpace c \<and> c \<noteq> CHR ''@''"
    by (auto simp: in_lang_OneOrMore_class notSpaceAt_def)
  ultimately have "s = l @ ''@'' @ d @ ''.'' @ t \<and> l \<noteq> [] \<and> d \<noteq> [] \<and> t \<noteq> []
        \<and> (\<forall>c \<in> set (l @ d @ t). \<not> isWhiteSpace c \<and> c \<noteq> CHR ''@'')" by (intro conjI)
  then show ?R by (intro exI)
next
  let ?A = "OneOrMore (CharClass notSpaceAt)"
  assume ?R
  then obtain l d t where s: "s = l @ ''@'' @ d @ ''.'' @ t"
    and ne: "l \<noteq> []" "d \<noteq> []" "t \<noteq> []"
    and cls: "\<forall>c \<in> set (l @ d @ t). \<not> isWhiteSpace c \<and> c \<noteq> CHR ''@''"
    by (elim exE conjE)
  from ne cls have l: "l \<in> lang ?A" and d: "d \<in> lang ?A" and t: "t \<in> lang ?A"
    by (auto simp: in_lang_OneOrMore_class notSpaceAt_def)
  have a: "''@'' \<in> lang (Lit CHR ''@'')" and p: "''.'' \<in> lang (Lit CHR ''.'')"
    by (simp_all only: in_lang_Lit)
  have "l @ ''@'' @ d @ ''.'' @ t \<in> lang emailRegex"
    unfolding emailRegex_def by (intro lang_ConcatI l a d p t)
  then show ?L by (simp only: s)
qed

subsection \<open>The delivery pipeline\<close>

declare retryLoop.simps [simp del]

lemma awaitSend_fulfils:
  "sendContactEmail w = Some f \<Longrightarrow> f (length (sent w)) = Fulfils \<Longrightarrow>
   awaitSend d w = (Inr (), w\<lparr>sent := sent w @ [d]\<rparr>)"
  by (simp add: awaitSend_def)

lemma awaitSend_fails:
  "sendContactEmail w = Some f \<Longrightarrow> f (length (sent w)) \<noteq> Fulfils \<Longrightarrow>
   \<exists>e. awaitSend d w = (Inl e, w\<lparr>sent := sent w @ [d]\<rparr>)"
  by (cases "f (length (sent w))") (simp_all add: awaitSend_def)

text \<open>
  The loop entered at \<open>attempt\<close> when the next \<open>k\<close> calls fail and the one after them is
  fulfilled, \<open>attempt + k\<close> being an allowed attempt.
\<close>

lemma retryLoop_fails_then_fulfils:
  "sendContactEmail w = Some f \<Longrightarrow> attempt + k \<le> maxRetries \<Longrightarrow>
   \<forall>i<k. f (length (sent w) + i) \<noteq> Fulfils \<Longrightarrow> f (length (sent w) + k) = Fulfils \<Longrightarrow>
   retryLoop attempt maxRetries d w =
     (Inr True, w\<lparr>sent := sent w @ replicate (Suc k) d,
                  waits := waits w @ map (\<lambda>a. 2 ^ (a - 1) * 1000) [attempt..<attempt + k]\<rparr>)"
proof (induction k arbitrary: attempt w)
  case 0
  then have "awaitSend d w = (Inr (), w\<lparr>sent := sent w @ [d]\<rparr>)"
    by (simp add: awaitSend_fulfils)
  with 0 show ?case by (simp add: retryLoop.simps [of attempt])
next
  case (Suc k)
  from Suc.prems have "f (length (sent w)) \<noteq> Fulfils" by (metis add.right_neutral zero_less_Suc)
  with Suc.prems obtain e where send: "awaitSend d w = (Inl e, w\<lparr>sent := sent w @ [d]\<rparr>)"
    using awaitSend_fails by blast
  let ?w = "awaitDelay (2 ^ (attempt - 1) * 1000) (w\<lparr>sent := sent w @ [d]\<rparr>)"
  have step: "retryLoop attempt maxRetries d w = retryLoop (Suc attempt) maxRetries d ?w"
    using Suc.prems send by (simp add: retryLoop.simps [of attempt])
  have "retryLoop (Suc attempt) maxRetries d ?w =
     (Inr True, ?w\<lparr>sent := sent ?w @ replicate (Suc k) d,
                  waits := waits ?w @ map (\<lambda>a. 2 ^ (a - 1) * 1000) [Suc attempt..<Suc attempt + k]\<rparr>)"
  proof (rule Suc.IH)
    show "sendContactEmail ?w = Some f" using Suc.prems by (simp add: awaitDelay_def)
    show "Suc attempt + k \<le> maxRetries" using Suc.prems by simp
    show "\<forall>i<k. f (length (sent ?w) + i) \<noteq> Fulfils"
      using Suc.prems(3) by (auto simp: awaitDelay_def dest: spec [of _ "Suc i" for i])
    show "f (length (sent ?w) + k) = Fulfils" using Suc.prems by (simp add: awaitDelay_def)
  qed
  then show ?case
    unfolding step by (simp add: awaitDelay_def replicate_app_Cons_same upt_conv_Cons)
qed

text \<open>The loop entered at \<open>attempt\<close> when every call that is left fails.\<close>

lemma retryLoop_exhausted:
  "sendContactEmail w = Some f \<Longrightarrow> n = Suc maxRetries - attempt \<Longrightarrow>
   \<forall>i<n. f (length (sent w) + i) \<noteq> Fulfils \<Longrightarrow>
   retryLoop attempt maxRetries d w =
     (Inr False, w\<lparr>sent := sent w @ replicate n d,
                   waits := waits w @ map (\<lambda>a. 2 ^ (a - 1) * 1000) [attempt..<maxRetries]\<rparr>)"
proof (induction n arbitrary: attempt w)
  case 0
  then have "\<not> attempt \<le> maxRetries" by simp
  then show ?case by (simp add: retryLoop.simps [of attempt])
next
  case (Suc n)
  then have le: "attempt \<le> maxRetries" by simp
  from Suc.prems have "f (length (sent w)) \<noteq> Fulfils" by (metis add.right_neutral zero_less_Suc)
  with Suc.prems obtain e where send: "awaitSend d w = (Inl e, w\<lparr>sent := sent w @ [d]\<rparr>)"
    using awaitSend_fails by blast
  show ?case
  proof (cases "attempt < maxRetries")
    case False
    with le Suc.prems have n: "n = 0" and last: "[attempt..<maxRetries] = []" by simp_all
    have "retryLoop attempt maxRetries d w = (Inr False, w\<lparr>sent := sent w @ [d]\<rparr>)"
      by (subst retryLoop.simps) (simp add: False le send)
    then show ?thesis unfolding n last by simp
  next
    case True
    let ?w = "awaitDelay (2 ^ (attempt - 1) * 1000) (w\<lparr>sent := sent w @ [d]\<rparr>)"
    have step: "retryLoop attempt maxRetries d w = retryLoop (Suc attempt) maxRetries d ?w"
      using True send by (simp add: retryLoop.simps [of attempt])
    have "retryLoop (Suc attempt) maxRetries d ?w =
       (Inr False, ?w\<lparr>sent := sent ?w @ replicate n d,
                   waits := waits ?w @ map (\<lambda>a. 2 ^ (a - 1) * 1000) [Suc attempt..<maxRetries]\<rparr>)"
    proof (rule Suc.IH)
      show "sendContactEmail ?w = Some f" using Suc.prems by (simp add: awaitDelay_def)
      show "n = Suc maxRetries - Suc attempt" using Suc.prems by simp
      show "\<forall>i<n. f (length (sent ?w) + i) \<noteq> Fulfils"
        using Suc.prems(3) by (auto simp: awaitDelay_def dest: spec [of _ "Suc i" for i])
    qed
    then show ?thesis
      unfolding step using True
      by (simp add: awaitDelay_def replicate_app_Cons_same upt_conv_Cons)
  qed
qed

lemma backoff_total:
  "sum_list (map (\<lambda>a. 2 ^ (a - 1) * 1000) [1..<Suc k]) = 1000 * (\<Sum>i = 1..k. 2 ^ (i - 1) :: nat)"
  by (induction k) (simp_all add: algebra_simps)

text \<open>The two outcomes of \<open>sendEmailWithRetry\<close>.\<close>

lemma sendEmailWithRetry_fails_then_fulfils:
  assumes "sendContactEmail w = Some f" and "k < defaultTo 3 maxRetries"
    and "\<forall>i<k. f (length (sent w) + i) \<noteq> Fulfils" and "f (length (sent w) + k) = Fulfils"
  shows "sendEmailWithRetry d maxRetries w =
           (Inr True, w\<lparr>sent := sent w @ replicate (Suc k) d,
                        waits := waits w @ map (\<lambda>a. 2 ^ (a - 1) * 1000) [1..<Suc k]\<rparr>)"
proof -
  from assms(2) have "1 + k \<le> defaultTo 3 maxRetries" by simp
  from retryLoop_fails_then_fulfils [OF assms(1) this assms(3) assms(4), of d]
  show ?thesis by (simp only: plus_1_eq_Suc sendEmailWithRetry_def)
qed

lemma sendEmailWithRetry_all_fail:
  assumes "sendContactEmail w = Some f"
    and "\<forall>i<defaultTo 3 maxRetries. f (length (sent w) + i) \<noteq> Fulfils"
  shows "sendEmailWithRetry d maxRetries w =
           (Inr False, w\<lparr>sent := sent w @ replicate (defaultTo 3 maxRetries) d,
                         waits := waits w @ map (\<lambda>a. 2 ^ (a - 1) * 1000)
                                              [1..<defaultTo 3 maxRetries]\<rparr>)"
proof -
  have "defaultTo 3 maxRetries = Suc (defaultTo 3 maxRetries) - 1" by simp
  from retryLoop_exhausted [OF assms(1) this assms(2)]
  show ?thesis by (simp only: sendEmailWithRetry_def)
qed

text \<open>
  Claim C2. When the send collaborator fails on its next \<open>k\<close> calls, \<open>k\<close> below the maximum
  (the argument \<open>maxRetries\<close>, or 3 without it), and fulfils the call after them,
  \<open>sendEmailWithRetry\<close> calls it \<open>k + 1\<close> times, returns \<open>true\<close> and waits
  \<open>2 ^ (attempt - 1)\<close> seconds after each of the failed attempts \<open>1, \<dots>, k\<close>, in all the sum of
  \<open>2 ^ (i - 1)\<close> seconds for \<open>i\<close> from 1 to \<open>k\<close>; nothing else of the browser changes.
\<close>

theorem sendEmailWithRetry_succeeds_after_failures:
  assumes "sendContactEmail w = Some f"
    and "k < defaultTo 3 maxRetries"
    and "\<forall>i<k. f (length (sent w) + i) \<noteq> Fulfils"
    and "f (length (sent w) + k) = Fulfils"
  shows "sendEmailWithRetry d maxRetries w =
           (Inr True, w\<lparr>sent := sent w @ replicate (k + 1) d,
                        waits := waits w @ map (\<lambda>attempt. 2 ^ (attempt - 1) * 1000) [1..<k + 1]\<rparr>)
         \<and> sum_list (map (\<lambda>attempt. 2 ^ (attempt - 1) * 1000) [1..<k + 1])
             = 1000 * (\<Sum>i = 1..k. 2 ^ (i - 1) :: nat)"
proof -
  have k1: "k + 1 = Suc k" by simp
  note sendEmailWithRetry_fails_then_fulfils [OF assms, of d]
  moreover note backoff_total [of k]
  ultimately show ?thesis unfolding k1 by blast
qed

theorem sendEmailWithRetry_succeeds_after_failures_witness:
  "sendContactEmail (sampleBrowser (Some failsTwice)) = Some failsTwice
   \<and> 2 < defaultTo 3 None
   \<and> failsTwice (length (sent (sampleBrowser (Some failsTwice))) + 0) \<noteq> Fulfils
   \<and> failsTwice (length (sent (sampleBrowser (Some failsTwice))) + 1) \<noteq> Fulfils
   \<and> failsTwice (length (sent (sampleBrowser (Some failsTwice))) + 2) = Fulfils
   \<and> fst (sendEmailWithRetry sampleLead None (sampleBrowser (Some failsTwice))) = Inr True
   \<and> sent (snd (sendEmailWithRetry sampleLead None (sampleBrowser (Some failsTwice))))
       = [sampleLead, sampleLead, sampleLead]
   \<and> waits (snd (sendEmailWithRetry sampleLead None (sampleBrowser (Some failsTwice))))
       = [1000, 2000]
   \<and> sum_list [1000, 2000] = 1000 * (\<Sum>i = 1..2. 2 ^ (i - 1) :: nat)"
proof -
  have h1: "sendContactEmail (sampleBrowser (Some failsTwice)) = Some failsTwice"
    by (simp add: sampleBrowser_def)
  have h2: "2 < defaultTo 3 None" by (simp add: defaultTo_def)
  have h3: "\<forall>i<2. failsTwice (length (sent (sampleBrowser (Some failsTwice))) + i) \<noteq> Fulfils"
    by (simp add: sampleBrowser_def failsTwice_def)
  have h4: "failsTwice (length (sent (sampleBrowser (Some failsTwice))) + 2) = Fulfils"
    by (simp add: sampleBrowser_def failsTwice_def)
  have delays: "map (\<lambda>attempt. 2 ^ (attempt - 1) * 1000) [1..<2 + 1] = [1000, 2000 :: nat]"
    by (simp add: upt_conv_Cons)
  have copies: "replicate (2 + 1) sampleLead = [sampleLead, sampleLead, sampleLead]"
    by (simp add: numeral_3_eq_3)
  from sendEmailWithRetry_succeeds_after_failures [OF h1 h2 h3 h4, of sampleLead]
  have run: "sendEmailWithRetry sampleLead None (sampleBrowser (Some failsTwice)) =
          (Inr True, (sampleBrowser (Some failsTwice))
             \<lparr>sent := sent (sampleBrowser (Some failsTwice)) @ [sampleLead, sampleLead, sampleLead],
              waits := waits (sampleBrowser (Some failsTwice)) @ [1000, 2000]\<rparr>)"
    and total: "sum_list [1000, 2000] = 1000 * (\<Sum>i = 1..2. 2 ^ (i - 1) :: nat)"
    unfolding delays copies by blast+
  have "failsTwice (length (sent (sampleBrowser (Some failsTwice))) + 0) \<noteq> Fulfils"
    "failsTwice (length (sent (sampleBrowser (Some failsTwice))) + 1) \<noteq> Fulfils"
    by (simp_all add: sampleBrowser_def failsTwice_def)
  with h1 h2 h4 total show ?thesis unfolding run by (simp add: sampleBrowser_def)
qed

text \<open>
  Claim C3. When the send collaborator fails on each of its next calls up to the maximum
  (the argument \<open>maxRetries\<close>, or 3 without it), whether by a rejected promise or by
  throwing, \<open>sendEmailWithRetry\<close> calls it exactly that many times, waits after each
  failure but the last, and settles with the value \<open>false\<close>, not with an error.
\<close>

theorem sendEmailWithRetry_exhausted:
  assumes "sendContactEmail w = Some f"
    and "\<forall>i<defaultTo 3 maxRetries. f (length (sent w) + i) \<noteq> Fulfils"
  shows "sendEmailWithRetry d maxRetries w =
           (Inr False, w\<lparr>sent := sent w @ replicate (defaultTo 3 maxRetries) d,
                         waits := waits w @ map (\<lambda>attempt. 2 ^ (attempt - 1) * 1000)
                                              [1..<defaultTo 3 maxRetries]\<rparr>)"
  using assms by (rule sendEmailWithRetry_all_fail)

theorem sendEmailWithRetry_exhausted_witness:
  "sendContactEmail (sampleBrowser (Some rejectsAlways)) = Some rejectsAlways
   \<and> defaultTo 3 None = 3
   \<and> rejectsAlways (length (sent (sampleBrowser (Some rejectsAlways))) + 0) \<noteq> Fulfils
   \<and> rejectsAlways (length (sent (sampleBrowser (Some rejectsAlways))) + 1) \<noteq> Fulfils
   \<and> rejectsAlways (length (sent (sampleBrowser (Some rejectsAlways))) + 2) \<noteq> Fulfils
   \<and> fst (sendEmailWithRetry sampleLead None (sampleBrowser (Some rejectsAlways))) = Inr False
   \<and> sent (snd (sendEmailWithRetry sampleLead None (sampleBrowser (Some rejectsAlways))))
       = [sampleLead, sampleLead, sampleLead]
   \<and> waits (snd (sendEmailWithRetry sampleLead None (sampleBrowser (Some rejectsAlways))))
       = [1000, 2000]
   \<and> fst (sendEmailWithRetry sampleLead (Some 1) (sampleBrowser (Some throwsAlways))) = Inr False
   \<and> sent (snd (sendEmailWithRetry sampleLead (Some 1) (sampleBrowser (Some throwsAlways))))
       = [sampleLead]"
proof -
  let ?w = "sampleBrowser (Some rejectsAlways)" and ?t = "sampleBrowser (Some throwsAlways)"
  have h1: "sendContactEmail ?w = Some rejectsAlways"
    by (simp add: sampleBrowser_def)
  have n: "defaultTo 3 None = 3" "defaultTo 3 (Some 1) = 1" by (simp_all add: defaultTo_def)
  have h2: "\<forall>i<defaultTo 3 None. rejectsAlways (length (sent ?w) + i) \<noteq> Fulfils"
    by (simp add: rejectsAlways_def)
  have t1: "sendContactEmail ?t = Some throwsAlways" by (simp add: sampleBrowser_def)
  have t2: "\<forall>i<defaultTo 3 (Some 1). throwsAlways (length (sent ?t) + i) \<noteq> Fulfils"
    by (simp add: throwsAlways_def)
  have delays: "map (\<lambda>attempt. 2 ^ (attempt - 1) * 1000) [1..<3] = [1000, 2000 :: nat]"
    by (simp add: upt_conv_Cons)
  have copies: "replicate 3 sampleLead = [sampleLead, sampleLead, sampleLead]"
    by (simp add: numeral_3_eq_3)
  have run: "sendEmailWithRetry sampleLead None ?w =
      (Inr False, ?w\<lparr>sent := sent ?w @ [sampleLead, sampleLead, sampleLead],
                      waits := waits ?w @ [1000, 2000]\<rparr>)"
    using sendEmailWithRetry_exhausted [OF h1 h2, of sampleLead] unfolding n delays copies .
  have once: "sendEmailWithRetry sampleLead (Some 1) ?t =
      (Inr False, ?t\<lparr>sent := sent ?t @ replicate 1 sampleLead,
                      waits := waits ?t @ map (\<lambda>attempt. 2 ^ (attempt - 1) * 1000) [1..<1]\<rparr>)"
    using sendEmailWithRetry_exhausted [OF t1 t2, of sampleLead] unfolding n .
  show ?thesis unfolding run once
    by (simp add: sampleBrowser_def rejectsAlways_def defaultTo_def)
qed

text \<open>The three outcomes of \<open>deliver\<close>.\<close>

lemma deliver_absent:
  "sendContactEmail w = None \<Longrightarrow> deliver ld w = (Inl (Error ''Configuration Error''), w)"
  by (simp add: deliver_def)

lemma deliver_fulfilled:
  assumes "sendContactEmail w = Some f" and "k < 3"
    and "\<forall>i<k. f (length (sent w) + i) \<noteq> Fulfils" and "f (length (sent w) + k) = Fulfils"
  shows "deliver ld w =
           (Inr (), w\<lparr>sent := sent w @ replicate (Suc k) ld,
                      waits := waits w @ map (\<lambda>a. 2 ^ (a - 1) * 1000) [1..<Suc k]\<rparr>)"
proof -
  from assms(2) have "k < defaultTo 3 (Some 3)" by (simp add: defaultTo_def)
  from sendEmailWithRetry_fails_then_fulfils [OF assms(1) this assms(3) assms(4), of ld] assms(1)
  show ?thesis by (simp add: deliver_def)
qed

lemma deliver_exhausted:
  assumes "sendContactEmail w = Some f" and "\<forall>i<3. f (length (sent w) + i) \<noteq> Fulfils"
  shows "deliver ld w =
           (Inl (Error ''EmailJS failed after retries''),
            w\<lparr>sent := sent w @ replicate 3 ld,
              waits := waits w @ map (\<lambda>a. 2 ^ (a - 1) * 1000) [1..<3]\<rparr>)"
proof -
  from assms(2) have "\<forall>i<defaultTo 3 (Some 3). f (length (sent w) + i) \<noteq> Fulfils"
    by (simp add: defaultTo_def)
  from sendEmailWithRetry_all_fail [OF assms(1) this, of ld] assms(1)
  show ?thesis by (simp add: deliver_def defaultTo_def)
qed

text \<open>
  A failed delivery, whatever its cause, leaves the storage, the clock and the sources of
  the protocol generator as they were.
\<close>

lemma deliver_fails:
  assumes "sendContactEmail w = None
           \<or> (\<exists>f. sendContactEmail w = Some f \<and> (\<forall>i<3. f (length (sent w) + i) \<noteq> Fulfils))"
  shows "\<exists>e w'. deliver ld w = (Inl e, w') \<and> localStorage w' = localStorage w
           \<and> setItemThrows w' = setItemThrows w \<and> isoTime w' = isoTime w
           \<and> randomUUID w' = randomUUID w \<and> dateNow w' = dateNow w
           \<and> mathRandom w' = mathRandom w \<and> generated w' = generated w"
  using assms
proof
  assume "sendContactEmail w = None"
  then show ?thesis by (simp add: deliver_absent)
next
  assume "\<exists>f. sendContactEmail w = Some f \<and> (\<forall>i<3. f (length (sent w) + i) \<noteq> Fulfils)"
  then obtain f where "sendContactEmail w = Some f" "\<forall>i<3. f (length (sent w) + i) \<noteq> Fulfils"
    by blast
  then show ?thesis by (simp add: deliver_exhausted)
qed

subsection \<open>Validation\<close>

text \<open>
  Claim C8. In the state \<open>NAME\<close> an input whose trimmed length is below 3 is answered by
  the re-prompt and changes neither the chatbot (its state and its lead data with the
  name field) nor the browser.
\<close>

theorem short_name_rejected:
  assumes "flowState b = NAME" and "length (trim input) < 3"
  shows "handleFlow w b input = (NameRejected, b, w)"
  using assms by (simp add: handleFlow_def)

theorem short_name_rejected_witness:
  "flowState (newChatbot\<lparr>flowState := NAME\<rparr>) = NAME
   \<and> length (trim ''Jo'') < 3
   \<and> handleFlow (sampleBrowser None) (newChatbot\<lparr>flowState := NAME\<rparr>) ''Jo''
       = (NameRejected, newChatbot\<lparr>flowState := NAME\<rparr>, sampleBrowser None)"
proof -
  have h1: "flowState (newChatbot\<lparr>flowState := NAME\<rparr>) = NAME" by simp
  have h2: "length (trim ''Jo'') < 3" by (simp add: trim_def isWhiteSpace_def)
  from short_name_rejected [OF h1 h2] h1 h2 show ?thesis by simp
qed

text \<open>
  Claim C7. In the state \<open>EMAIL\<close>: when the trimmed input belongs to the language of the
  pattern \<^verbatim>\<open>^[^\s@]+@[^\s@]+\.[^\s@]+$\<close>, it is stored in the field \<open>email\<close> and the state
  becomes \<open>DESAFIO\<close>, with the prompt for the challenge; otherwise the rejection is
  returned and neither the chatbot nor the browser changes.
\<close>

theorem email_step:
  assumes "flowState b = EMAIL"
  shows "(trim input \<in> lang emailRegex \<longrightarrow>
            handleFlow w b input =
              (ChallengePrompt,
               b\<lparr>leadData := (leadData b)\<lparr>email := Some (trim input)\<rparr>, flowState := DESAFIO\<rparr>, w))
       \<and> (trim input \<notin> lang emailRegex \<longrightarrow> handleFlow w b input = (EmailRejected, b, w))"
  using assms by (simp add: handleFlow_def matches_lang)

theorem email_step_witness:
  "flowState (newChatbot\<lparr>flowState := EMAIL\<rparr>) = EMAIL
   \<and> trim ''a@b.co'' \<in> lang emailRegex
   \<and> handleFlow (sampleBrowser None) (newChatbot\<lparr>flowState := EMAIL\<rparr>) ''a@b.co''
       = (ChallengePrompt,
          newChatbot\<lparr>flowState := DESAFIO, leadData := empty_lead\<lparr>email := Some ''a@b.co''\<rparr>\<rparr>,
          sampleBrowser None)
   \<and> trim ''not-an-email'' \<notin> lang emailRegex
   \<and> handleFlow (sampleBrowser None) (newChatbot\<lparr>flowState := EMAIL\<rparr>) ''not-an-email''
       = (EmailRejected, newChatbot\<lparr>flowState := EMAIL\<rparr>, sampleBrowser None)"
proof -
  have h: "flowState (newChatbot\<lparr>flowState := EMAIL\<rparr>) = EMAIL" by simp
  have t1: "trim ''a@b.co'' = ''a@b.co''" and t2: "trim ''not-an-email'' = ''not-an-email''"
    by (simp_all add: trim_def isWhiteSpace_def)
  have m1: "trim ''a@b.co'' \<in> lang emailRegex"
    unfolding t1 matches_lang [symmetric]
    by (simp add: emailRegex_def OneOrMore_def Lit_def notSpaceAt_def isWhiteSpace_def)
  have m2: "trim ''not-an-email'' \<notin> lang emailRegex"
    unfolding t2 matches_lang [symmetric]
    by (simp add: emailRegex_def OneOrMore_def Lit_def notSpaceAt_def isWhiteSpace_def)
  from email_step [OF h, of "''a@b.co''" "sampleBrowser None"] m1
  have r1: "handleFlow (sampleBrowser None) (newChatbot\<lparr>flowState := EMAIL\<rparr>) ''a@b.co''
       = (ChallengePrompt,
          newChatbot\<lparr>flowState := DESAFIO, leadData := empty_lead\<lparr>email := Some ''a@b.co''\<rparr>\<rparr>,
          sampleBrowser None)"
    by (simp add: t1 newChatbot_def)
  from email_step [OF h, of "''not-an-email''" "sampleBrowser None"] m2
  have r2: "handleFlow (sampleBrowser None) (newChatbot\<lparr>flowState := EMAIL\<rparr>) ''not-an-email''
       = (EmailRejected, newChatbot\<lparr>flowState := EMAIL\<rparr>, sampleBrowser None)"
    by simp
  from h m1 r1 m2 r2 show ?thesis by (intro conjI)
qed

subsection \<open>The protocol generator\<close>

lemma generateSecureProtocol_world:
  "snd (generateSecureProtocol w) = w\<lparr>generated := Suc (generated w)\<rparr>"
  by (simp add: generateSecureProtocol_def Let_def split: option.split)

lemma generateSecureProtocol_token_cong:
  "randomUUID v = randomUUID w \<Longrightarrow> dateNow v = dateNow w \<Longrightarrow> mathRandom v = mathRandom w \<Longrightarrow>
   generated v = generated w \<Longrightarrow>
   fst (generateSecureProtocol v) = fst (generateSecureProtocol w)"
  by (simp add: generateSecureProtocol_def Let_def split: option.split)

text \<open>
  Claim C9. The token of \<open>generateSecureProtocol\<close> is not empty and begins with \<open>GLX-\<close>,
  with \<open>crypto.randomUUID\<close> and without it.
\<close>

theorem protocol_has_tag:
  "fst (generateSecureProtocol w) \<noteq> [] \<and> take 4 (fst (generateSecureProtocol w)) = ''GLX-''"
  by (simp add: generateSecureProtocol_def Let_def split: option.split)

theorem protocol_has_tag_witness:
  "fst (generateSecureProtocol (sampleBrowser None)) = ''GLX-A3F8B7C2''
   \<and> take 4 (fst (generateSecureProtocol (sampleBrowser None))) = ''GLX-''
   \<and> fst (generateSecureProtocol ((sampleBrowser None)\<lparr>randomUUID := None\<rparr>)) = ''GLX-RS-K3X9''
   \<and> take 4 (fst (generateSecureProtocol ((sampleBrowser None)\<lparr>randomUUID := None\<rparr>))) = ''GLX-''"
proof -
  have 1: "fst (generateSecureProtocol (sampleBrowser None)) = ''GLX-A3F8B7C2''"
    by (simp add: generateSecureProtocol_def sampleBrowser_def split_first_def toUpperCase_def
        upperChar_def smalls_def capitals_def)
  have 2: "fst (generateSecureProtocol ((sampleBrowser None)\<lparr>randomUUID := None\<rparr>))
             = ''GLX-RS-K3X9''"
    by (simp add: generateSecureProtocol_def sampleBrowser_def substring_def digit36_def
        toUpperCase_def upperChar_def smalls_def capitals_def)
  from protocol_has_tag [of "sampleBrowser None"]
    protocol_has_tag [of "(sampleBrowser None)\<lparr>randomUUID := None\<rparr>"] 1 2
  show ?thesis by (intro conjI) simp_all
qed

subsection \<open>The chat session\<close>

text \<open>
  Claim C10. Whatever the state of the chatbot, \<open>sendMessage\<close> on an input box that is
  empty or holds white space only changes nothing: the state, the lead data, the message
  list and the scheduled callbacks stay as they are, so that no user message is shown
  and no reply will come.
\<close>

theorem blank_message_ignored:
  assumes "\<forall>c \<in> set (chatInput b). isWhiteSpace c"
  shows "sendMessage b = b"
  using assms by (simp add: sendMessage_def trim_blank)

theorem blank_message_ignored_witness:
  "isWhiteSpace CHR '' ''
   \<and> sendMessage (newChatbot\<lparr>flowState := EMAIL, chatInput := ''  ''\<rparr>)
       = newChatbot\<lparr>flowState := EMAIL, chatInput := ''  ''\<rparr>
   \<and> sendMessage newChatbot = newChatbot"
proof -
  have sp: "isWhiteSpace CHR '' ''" by (simp add: isWhiteSpace_def)
  then have h1: "\<forall>c \<in> set (chatInput (newChatbot\<lparr>flowState := EMAIL, chatInput := ''  ''\<rparr>)).
                   isWhiteSpace c"
    by simp
  have h2: "\<forall>c \<in> set (chatInput newChatbot). isWhiteSpace c" by (simp add: newChatbot_def)
  from blank_message_ignored [OF h1] blank_message_ignored [OF h2] sp
  show ?thesis by (intro conjI)
qed

subsection \<open>Entering the flow\<close>

lemma respond_trigger:
  assumes "flowState b = IDLE"
    and "t \<in> set triggers"
    and "toLowerCase message = pre @ t @ post"
  shows "respond w b message =
           (NamePrompt, b\<lparr>flowState := NAME, leadData := empty_lead\<rparr>,
            if trackEvent w then w\<lparr>tracked := tracked w @ [ChatbotInitiated (isoTime w)]\<rparr> else w)"
proof -
  from assms(3) have "includes_str (toLowerCase message) t"
    unfolding includes_str_iff by blast
  with assms(2) have "list_ex (\<lambda>t. includes_str (toLowerCase message) t) triggers"
    unfolding list_ex_iff by blast
  with assms(1) show ?thesis
    by (simp add: respond_def checkIntents_def startLeadFlow_def)
qed

text \<open>
  Claim C6. In the state \<open>IDLE\<close>, a message whose lower-cased text contains one of the
  triggers makes the lead data empty, moves the state to \<open>NAME\<close> and is answered by the
  prompt for the name (the analytics hook, when there is one, is told); the message
  of the scenario (\<open>quero\<close>, a space, \<open>or\<close>, U+00E7, \<open>amento\<close>) is one of them.
\<close>

theorem trigger_starts_lead_flow:
  assumes "flowState b = IDLE"
    and "t \<in> set triggers"
    and "toLowerCase message = pre @ t @ post"
  shows "respond w b message =
           (NamePrompt, b\<lparr>flowState := NAME, leadData := empty_lead\<rparr>,
            if trackEvent w then w\<lparr>tracked := tracked w @ [ChatbotInitiated (isoTime w)]\<rparr> else w)"
  using assms by (rule respond_trigger)

theorem trigger_starts_lead_flow_witness:
  "flowState newChatbot = IDLE
   \<and> ''quero'' \<in> set triggers
   \<and> toLowerCase (''quero or'' @ [CHR 0xE7] @ ''amento'') = [] @ ''quero'' @ ('' or'' @ [CHR 0xE7] @ ''amento'')
   \<and> respond (sampleBrowser None) newChatbot (''quero or'' @ [CHR 0xE7] @ ''amento'')
       = (NamePrompt, newChatbot\<lparr>flowState := NAME, leadData := empty_lead\<rparr>,
          (sampleBrowser None)\<lparr>tracked := [ChatbotInitiated ''2024-05-01T12:00:00.000Z'']\<rparr>)"
proof -
  have h1: "flowState newChatbot = IDLE" by (simp add: newChatbot_def)
  have h2: "''quero'' \<in> set triggers" by (simp add: triggers_def)
  have h3: "toLowerCase (''quero or'' @ [CHR 0xE7] @ ''amento'')
              = [] @ ''quero'' @ ('' or'' @ [CHR 0xE7] @ ''amento'')"
    by (simp add: toLowerCase_def lowerChar_def capitals_def smalls_def)
  have "respond (sampleBrowser None) newChatbot (''quero or'' @ [CHR 0xE7] @ ''amento'')
       = (NamePrompt, newChatbot\<lparr>flowState := NAME, leadData := empty_lead\<rparr>,
          if trackEvent (sampleBrowser None)
          then (sampleBrowser None)\<lparr>tracked := tracked (sampleBrowser None)
                  @ [ChatbotInitiated (isoTime (sampleBrowser None))]\<rparr>
          else sampleBrowser None)"
    by (rule trigger_starts_lead_flow [OF h1 h2 h3])
  then have "respond (sampleBrowser None) newChatbot (''quero or'' @ [CHR 0xE7] @ ''amento'')
       = (NamePrompt, newChatbot\<lparr>flowState := NAME, leadData := empty_lead\<rparr>,
          (sampleBrowser None)\<lparr>tracked := [ChatbotInitiated ''2024-05-01T12:00:00.000Z'']\<rparr>)"
    by (simp add: sampleBrowser_def)
  with h1 h2 h3 show ?thesis by (intro conjI)
qed

subsection \<open>The terminal step\<close>

text \<open>The case \<open>DUVIDA\<close> of \<open>handleFlow\<close>, after a delivery and after a failed one.\<close>

lemma handleFlow_DUVIDA:
  "flowState b = DUVIDA \<Longrightarrow>
   handleFlow w b input =
     (case deliver ((leadData b)\<lparr>mensagem := Some (trim input)\<rparr>) (w\<lparr>generated := Suc (generated w)\<rparr>) of
        (Inr u, w2) \<Rightarrow> onDelivered (fst (generateSecureProtocol w)) w2 (b\<lparr>leadData := (leadData b)\<lparr>mensagem := Some (trim input)\<rparr>\<rparr>)
      | (Inl e, w2) \<Rightarrow> onError w2 (b\<lparr>leadData := (leadData b)\<lparr>mensagem := Some (trim input)\<rparr>\<rparr>))"
  using generateSecureProtocol_world [of w]
  by (simp add: handleFlow_def Let_def split_beta split: sum.split)

lemma handleFlow_delivered:
  assumes "flowState b = DUVIDA"
    and "sendContactEmail w = Some f" and "k < 3"
    and "\<forall>i<k. f (length (sent w) + i) \<noteq> Fulfils" and "f (length (sent w) + k) = Fulfils"
  shows "handleFlow w b input =
     (SuccessReply (fst (generateSecureProtocol w))
        (waLink (waText ((leadData b)\<lparr>mensagem := Some (trim input)\<rparr>) (fst (generateSecureProtocol w)))),
      b\<lparr>leadData := (leadData b)\<lparr>mensagem := Some (trim input)\<rparr>, flowState := IDLE\<rparr>,
      w\<lparr>generated := Suc (generated w),
        sent := sent w @ replicate (Suc k) ((leadData b)\<lparr>mensagem := Some (trim input)\<rparr>),
        waits := waits w @ map (\<lambda>a. 2 ^ (a - 1) * 1000) [1..<Suc k],
        tracked := (if trackEvent w
                    then tracked w @ [LeadSubmitted (fst (generateSecureProtocol w)) ''chatbot'' (desafio (leadData b))]
                    else tracked w)\<rparr>)"
proof -
  let ?w1 = "w\<lparr>generated := Suc (generated w)\<rparr>"
  have "deliver ((leadData b)\<lparr>mensagem := Some (trim input)\<rparr>) ?w1 =
     (Inr (), ?w1\<lparr>sent := sent ?w1 @ replicate (Suc k) ((leadData b)\<lparr>mensagem := Some (trim input)\<rparr>),
                      waits := waits ?w1 @ map (\<lambda>a. 2 ^ (a - 1) * 1000) [1..<Suc k]\<rparr>)"
    by (rule deliver_fulfilled [where f = f]) (use assms in simp_all)
  then show ?thesis
    by (simp add: handleFlow_DUVIDA [OF assms(1)] onDelivered_def)
qed

lemma handleFlow_failed:
  assumes "flowState b = DUVIDA"
    and "sendContactEmail w = None
         \<or> (\<exists>f. sendContactEmail w = Some f \<and> (\<forall>i<3. f (length (sent w) + i) \<noteq> Fulfils))"
  shows "fst (handleFlow w b input) =
           FallbackReply (waLink (waText ((leadData b)\<lparr>mensagem := Some (trim input)\<rparr>)
              (fst (generateSecureProtocol (w\<lparr>generated := Suc (generated w)\<rparr>))) @ errorNote))"
    and "fst (snd (handleFlow w b input)) = b\<lparr>leadData := (leadData b)\<lparr>mensagem := Some (trim input)\<rparr>\<rparr>"
    and "localStorage (snd (snd (handleFlow w b input))) =
           (if setItemThrows w then localStorage w
            else (localStorage w)(''glx_lead_backup'' \<mapsto>
                   \<lparr>data = (leadData b)\<lparr>mensagem := Some (trim input)\<rparr>, timestamp = isoTime w\<rparr>))"
    and "generated (snd (snd (handleFlow w b input))) = generated w + 2"
proof -
  let ?w1 = "w\<lparr>generated := Suc (generated w)\<rparr>"
  let ?ld = "(leadData b)\<lparr>mensagem := Some (trim input)\<rparr>"
  from assms(2) have "sendContactEmail ?w1 = None
         \<or> (\<exists>f. sendContactEmail ?w1 = Some f \<and> (\<forall>i<3. f (length (sent ?w1) + i) \<noteq> Fulfils))"
    by simp
  from deliver_fails [OF this, of ?ld] obtain e w2 where
    d: "deliver ?ld ?w1 = (Inl e, w2)" and
    w2: "localStorage w2 = localStorage w" "setItemThrows w2 = setItemThrows w"
      "isoTime w2 = isoTime w" "randomUUID w2 = randomUUID w" "dateNow w2 = dateNow w"
      "mathRandom w2 = mathRandom w" "generated w2 = Suc (generated w)"
    by auto
  have hf: "handleFlow w b input = onError w2 (b\<lparr>leadData := ?ld\<rparr>)"
    by (simp add: handleFlow_DUVIDA [OF assms(1)] d)
  have tok: "fst (generateSecureProtocol (saveToLocalStorage ?ld w2)) = fst (generateSecureProtocol ?w1)"
    by (rule generateSecureProtocol_token_cong) (simp_all add: saveToLocalStorage_def w2)
  show "fst (handleFlow w b input) =
           FallbackReply (waLink (waText ?ld (fst (generateSecureProtocol ?w1)) @ errorNote))"
    unfolding hf by (simp add: onError_def Let_def split_beta tok)
  show "fst (snd (handleFlow w b input)) = b\<lparr>leadData := ?ld\<rparr>"
    unfolding hf by (simp add: onError_def Let_def split_beta)
  show "localStorage (snd (snd (handleFlow w b input))) =
           (if setItemThrows w then localStorage w
            else (localStorage w)(''glx_lead_backup'' \<mapsto> \<lparr>data = ?ld, timestamp = isoTime w\<rparr>))"
    unfolding hf
    by (simp add: onError_def Let_def split_beta generateSecureProtocol_world saveToLocalStorage_def w2)
  show "generated (snd (snd (handleFlow w b input))) = generated w + 2"
    unfolding hf
    by (simp add: onError_def Let_def split_beta generateSecureProtocol_world saveToLocalStorage_def w2)
qed

lemma sample_trim:
  "trim ''Ana Lima'' = ''Ana Lima''" "trim ''Diretora'' = ''Diretora''"
  "trim ''ana@clinica.com'' = ''ana@clinica.com''" "trim ''Custos'' = ''Custos''"
  "trim ''Sem duvida'' = ''Sem duvida''"
  by (simp_all add: trim_def isWhiteSpace_def)

lemma sample_trigger:
  "toLowerCase (''quero or'' @ [CHR 0xE7] @ ''amento'')
     = [] @ ''quero'' @ ('' or'' @ [CHR 0xE7] @ ''amento'')"
  by (simp add: toLowerCase_def lowerChar_def capitals_def smalls_def)

lemma sample_email: "trim ''ana@clinica.com'' \<in> lang emailRegex"
  unfolding sample_trim matches_lang [symmetric]
  by (simp add: emailRegex_def OneOrMore_def Lit_def notSpaceAt_def isWhiteSpace_def)

lemma sample_fallback_link:
  "waLink (waText sampleLead ''GLX-0C9E51D7'' @ errorNote) =
   ''https://wa.me/5511944223257?text=Ol%C3%A1!%20Sou%20Ana%20Lima%20(Diretora).%0AMeu%20desafio%20%C3%A9%3A%20Custos.%0AProtocolo%3A%20GLX-0C9E51D7%0A%0A(Enviado%20via%20WhatsApp%20pois%20o%20formul%C3%A1rio%20apresentou%20erro)''"
  by (simp add: waLink_def waText_def errorNote_def sampleLead_def interpolate_def
      encodeURIComponent_def encodeChar_def unreserved_def percentByte_def hexDigit_def)

lemma sample_tokens:
  "fst (generateSecureProtocol (sampleBrowser send)) = ''GLX-A3F8B7C2''"
  "fst (generateSecureProtocol ((sampleBrowser send)\<lparr>generated := Suc (generated (sampleBrowser send))\<rparr>))
     = ''GLX-0C9E51D7''"
  by (simp_all add: generateSecureProtocol_def sampleBrowser_def split_first_def toUpperCase_def
      upperChar_def smalls_def capitals_def)

lemma closingChatbot_simps:
  "flowState closingChatbot = DUVIDA"
  "(leadData closingChatbot)\<lparr>mensagem := Some (trim ''Sem duvida'')\<rparr> = sampleLead"
  by (simp_all add: closingChatbot_def sampleLead_def sample_trim)

text \<open>
  Claim C4, as amended. When the terminal delivery fails, because the send collaborator
  is missing or because its three calls fail, the reply is the fallback message with the
  WhatsApp link, and the lead data with the time stamp are stored under the key
  \<open>glx_lead_backup\<close>, replacing what was there, unless \<open>setItem\<close> throws: then the storage
  stays as it was. Reply, chatbot and storage are the same for the two causes.
\<close>

theorem failed_delivery_fallback:
  assumes "flowState b = DUVIDA"
    and "sendContactEmail w = None
         \<or> (\<exists>f. sendContactEmail w = Some f \<and> (\<forall>i<3. f (length (sent w) + i) \<noteq> Fulfils))"
  shows "fst (handleFlow w b input) =
           FallbackReply (waLink (waText ((leadData b)\<lparr>mensagem := Some (trim input)\<rparr>)
              (fst (generateSecureProtocol (w\<lparr>generated := Suc (generated w)\<rparr>))) @ errorNote))
       \<and> fst (snd (handleFlow w b input))
           = b\<lparr>leadData := (leadData b)\<lparr>mensagem := Some (trim input)\<rparr>\<rparr>
       \<and> localStorage (snd (snd (handleFlow w b input))) =
           (if setItemThrows w then localStorage w
            else (localStorage w)(''glx_lead_backup'' \<mapsto>
                   \<lparr>data = (leadData b)\<lparr>mensagem := Some (trim input)\<rparr>, timestamp = isoTime w\<rparr>))"
  using handleFlow_failed(1-3) [OF assms] by (intro conjI)

theorem failed_delivery_fallback_witness:
  "flowState closingChatbot = DUVIDA
   \<and> sendContactEmail (sampleBrowser None) = None
   \<and> sendContactEmail (sampleBrowser (Some rejectsAlways)) = Some rejectsAlways
   \<and> rejectsAlways (length (sent (sampleBrowser (Some rejectsAlways))) + 0) \<noteq> Fulfils
   \<and> rejectsAlways (length (sent (sampleBrowser (Some rejectsAlways))) + 1) \<noteq> Fulfils
   \<and> rejectsAlways (length (sent (sampleBrowser (Some rejectsAlways))) + 2) \<noteq> Fulfils
   \<and> fst (handleFlow (sampleBrowser None) closingChatbot ''Sem duvida'')
       = FallbackReply ''https://wa.me/5511944223257?text=Ol%C3%A1!%20Sou%20Ana%20Lima%20(Diretora).%0AMeu%20desafio%20%C3%A9%3A%20Custos.%0AProtocolo%3A%20GLX-0C9E51D7%0A%0A(Enviado%20via%20WhatsApp%20pois%20o%20formul%C3%A1rio%20apresentou%20erro)''
   \<and> fst (handleFlow (sampleBrowser (Some rejectsAlways)) closingChatbot ''Sem duvida'')
       = fst (handleFlow (sampleBrowser None) closingChatbot ''Sem duvida'')
   \<and> localStorage (snd (snd (handleFlow (sampleBrowser None) closingChatbot ''Sem duvida'')))
        ''glx_lead_backup''
       = Some \<lparr>data = sampleLead, timestamp = ''2024-05-01T12:00:00.000Z''\<rparr>
   \<and> localStorage (snd (snd (handleFlow (sampleBrowser (Some rejectsAlways)) closingChatbot
        ''Sem duvida''))) ''glx_lead_backup''
       = Some \<lparr>data = sampleLead, timestamp = ''2024-05-01T12:00:00.000Z''\<rparr>"
proof -
  let ?a = "sampleBrowser None" and ?x = "sampleBrowser (Some rejectsAlways)"
  note st = closingChatbot_simps(1)
  have a: "sendContactEmail ?a = None" by (simp add: sampleBrowser_def)
  have x: "sendContactEmail ?x = Some rejectsAlways" by (simp add: sampleBrowser_def)
  have r: "rejectsAlways (length (sent ?x) + 0) \<noteq> Fulfils"
    "rejectsAlways (length (sent ?x) + 1) \<noteq> Fulfils"
    "rejectsAlways (length (sent ?x) + 2) \<noteq> Fulfils"
    by (simp_all add: rejectsAlways_def)
  have ha: "sendContactEmail ?a = None
         \<or> (\<exists>f. sendContactEmail ?a = Some f \<and> (\<forall>i<3. f (length (sent ?a) + i) \<noteq> Fulfils))"
    using a by simp
  have hx: "sendContactEmail ?x = None
         \<or> (\<exists>f. sendContactEmail ?x = Some f \<and> (\<forall>i<3. f (length (sent ?x) + i) \<noteq> Fulfils))"
    using x by (simp add: rejectsAlways_def)
  note A = failed_delivery_fallback [OF st ha, of "''Sem duvida''"]
  note X = failed_delivery_fallback [OF st hx, of "''Sem duvida''"]
  from A have ra: "fst (handleFlow ?a closingChatbot ''Sem duvida'')
      = FallbackReply (waLink (waText sampleLead ''GLX-0C9E51D7'' @ errorNote))"
    by (simp only: closingChatbot_simps sample_tokens)
  from X have rx: "fst (handleFlow ?x closingChatbot ''Sem duvida'')
      = FallbackReply (waLink (waText sampleLead ''GLX-0C9E51D7'' @ errorNote))"
    by (simp only: closingChatbot_simps sample_tokens)
  from A have sa: "localStorage (snd (snd (handleFlow ?a closingChatbot ''Sem duvida'')))
        ''glx_lead_backup'' = Some \<lparr>data = sampleLead, timestamp = ''2024-05-01T12:00:00.000Z''\<rparr>"
    by (simp add: closingChatbot_simps sampleBrowser_def)
  from X have sx: "localStorage (snd (snd (handleFlow ?x closingChatbot ''Sem duvida'')))
        ''glx_lead_backup'' = Some \<lparr>data = sampleLead, timestamp = ''2024-05-01T12:00:00.000Z''\<rparr>"
    by (simp add: closingChatbot_simps sampleBrowser_def)
  from ra have ra': "fst (handleFlow ?a closingChatbot ''Sem duvida'')
       = FallbackReply ''https://wa.me/5511944223257?text=Ol%C3%A1!%20Sou%20Ana%20Lima%20(Diretora).%0AMeu%20desafio%20%C3%A9%3A%20Custos.%0AProtocolo%3A%20GLX-0C9E51D7%0A%0A(Enviado%20via%20WhatsApp%20pois%20o%20formul%C3%A1rio%20apresentou%20erro)''"
    by (simp only: sample_fallback_link)
  from ra rx have same: "fst (handleFlow ?x closingChatbot ''Sem duvida'')
       = fst (handleFlow ?a closingChatbot ''Sem duvida'')" by simp
  from st a x r ra' same sa sx show ?thesis by (intro conjI)
qed

theorem failed_delivery_fallback_counterexample:
  "flowState closingChatbot = DUVIDA
   \<and> sendContactEmail ((sampleBrowser None)\<lparr>setItemThrows := True\<rparr>) = None
   \<and> localStorage (snd (snd (handleFlow ((sampleBrowser None)\<lparr>setItemThrows := True\<rparr>)
        closingChatbot ''Sem duvida''))) ''glx_lead_backup'' = None"
proof -
  let ?w = "(sampleBrowser None)\<lparr>setItemThrows := True\<rparr>"
  have a: "sendContactEmail ?w = None" by (simp add: sampleBrowser_def)
  then have h: "sendContactEmail ?w = None
         \<or> (\<exists>f. sendContactEmail ?w = Some f \<and> (\<forall>i<3. f (length (sent ?w) + i) \<noteq> Fulfils))"
    by simp
  from handleFlow_failed(3) [OF closingChatbot_simps(1) h, of "''Sem duvida''"]
  have "localStorage (snd (snd (handleFlow ?w closingChatbot ''Sem duvida''))) ''glx_lead_backup''
          = None"
    by (simp add: sampleBrowser_def)
  with closingChatbot_simps(1) a show ?thesis by (intro conjI)
qed




subsection \<open>Complete conversations\<close>

lemma respond_NAME:
  "flowState b = NAME \<Longrightarrow> 3 \<le> length (trim input) \<Longrightarrow>
   respond w b input =
     (RolePrompt (split_first CHR '' '' (trim input)),
      b\<lparr>leadData := (leadData b)\<lparr>nome := Some (trim input)\<rparr>, flowState := ROLE\<rparr>, w)"
  by (simp add: respond_def handleFlow_def Let_def)

lemma respond_ROLE:
  "flowState b = ROLE \<Longrightarrow>
   respond w b input =
     (EmailPrompt, b\<lparr>leadData := (leadData b)\<lparr>cargo := Some (trim input)\<rparr>, flowState := EMAIL\<rparr>, w)"
  by (simp add: respond_def handleFlow_def Let_def)

lemma respond_EMAIL:
  "flowState b = EMAIL \<Longrightarrow> trim input \<in> lang emailRegex \<Longrightarrow>
   respond w b input =
     (ChallengePrompt,
      b\<lparr>leadData := (leadData b)\<lparr>email := Some (trim input)\<rparr>, flowState := DESAFIO\<rparr>, w)"
  by (simp add: respond_def handleFlow_def matches_lang Let_def)

lemma respond_DESAFIO:
  "flowState b = DESAFIO \<Longrightarrow>
   respond w b input =
     (MessagePrompt,
      b\<lparr>leadData := (leadData b)\<lparr>desafio := Some (trim input)\<rparr>, flowState := DUVIDA\<rparr>, w)"
  by (simp add: respond_def handleFlow_def Let_def)

lemma respond_DUVIDA: "flowState b = DUVIDA \<Longrightarrow> respond w b input = handleFlow w b input"
  by (simp add: respond_def)

lemma handleFlow_DUVIDA_leadData:
  "flowState b = DUVIDA \<Longrightarrow>
   leadData (fst (snd (handleFlow w b input))) = (leadData b)\<lparr>mensagem := Some (trim input)\<rparr>"
  by (simp add: handleFlow_DUVIDA onDelivered_def onError_def Let_def split_beta
      split: prod.split sum.split)

lemma converse_Cons:
  "respond w b m = (r, b1, w1) \<Longrightarrow> snd (converse w b (m # ms)) = snd (converse w1 b1 ms)"
  by (simp add: split_beta)

lemma converse_single: "snd (converse w b [m]) = snd (respond w b m)"
  by (simp add: split_beta)

lemma traversal_terminal:
  assumes "flowState b = IDLE"
    and "t \<in> set triggers" and "toLowerCase trigger = pre @ t @ post"
    and "3 \<le> length (trim nameIn)"
    and "trim emailIn \<in> lang emailRegex"
  shows "snd (converse w b [trigger, nameIn, roleIn, emailIn, challengeIn, messageIn]) =
     snd (handleFlow
       (if trackEvent w then w\<lparr>tracked := tracked w @ [ChatbotInitiated (isoTime w)]\<rparr> else w)
       (b\<lparr>flowState := DUVIDA,
          leadData := \<lparr>nome = Some (trim nameIn), cargo = Some (trim roleIn),
                       email = Some (trim emailIn), desafio = Some (trim challengeIn),
                       mensagem = None\<rparr>\<rparr>)
       messageIn)"
proof -
  let ?w1 = "if trackEvent w then w\<lparr>tracked := tracked w @ [ChatbotInitiated (isoTime w)]\<rparr> else w"
  let ?b1 = "b\<lparr>flowState := NAME, leadData := empty_lead\<rparr>"
  let ?b2 = "?b1\<lparr>leadData := (leadData ?b1)\<lparr>nome := Some (trim nameIn)\<rparr>, flowState := ROLE\<rparr>"
  let ?b3 = "?b2\<lparr>leadData := (leadData ?b2)\<lparr>cargo := Some (trim roleIn)\<rparr>, flowState := EMAIL\<rparr>"
  let ?b4 = "?b3\<lparr>leadData := (leadData ?b3)\<lparr>email := Some (trim emailIn)\<rparr>, flowState := DESAFIO\<rparr>"
  let ?b5 = "?b4\<lparr>leadData := (leadData ?b4)\<lparr>desafio := Some (trim challengeIn)\<rparr>, flowState := DUVIDA\<rparr>"
  have s1: "respond w b trigger = (NamePrompt, ?b1, ?w1)"
    by (rule respond_trigger [OF assms(1-3)])
  have s2: "respond ?w1 ?b1 nameIn = (RolePrompt (split_first CHR '' '' (trim nameIn)), ?b2, ?w1)"
    by (rule respond_NAME) (simp_all add: assms(4))
  have s3: "respond ?w1 ?b2 roleIn = (EmailPrompt, ?b3, ?w1)"
    by (rule respond_ROLE) simp
  have s4: "respond ?w1 ?b3 emailIn = (ChallengePrompt, ?b4, ?w1)"
    by (rule respond_EMAIL) (simp_all add: assms(5))
  have s5: "respond ?w1 ?b4 challengeIn = (MessagePrompt, ?b5, ?w1)"
    by (rule respond_DESAFIO) simp
  have s6: "respond ?w1 ?b5 messageIn = handleFlow ?w1 ?b5 messageIn"
    by (rule respond_DUVIDA) simp
  have b5: "?b5 = b\<lparr>flowState := DUVIDA,
          leadData := \<lparr>nome = Some (trim nameIn), cargo = Some (trim roleIn),
                       email = Some (trim emailIn), desafio = Some (trim challengeIn),
                       mensagem = None\<rparr>\<rparr>"
    by (simp add: empty_lead_def)
  have "snd (converse w b [trigger, nameIn, roleIn, emailIn, challengeIn, messageIn]) =
          snd (converse ?w1 ?b1 [nameIn, roleIn, emailIn, challengeIn, messageIn])"
    by (rule converse_Cons [OF s1])
  also have "\<dots> = snd (converse ?w1 ?b2 [roleIn, emailIn, challengeIn, messageIn])"
    by (rule converse_Cons [OF s2])
  also have "\<dots> = snd (converse ?w1 ?b3 [emailIn, challengeIn, messageIn])"
    by (rule converse_Cons [OF s3])
  also have "\<dots> = snd (converse ?w1 ?b4 [challengeIn, messageIn])"
    by (rule converse_Cons [OF s4])
  also have "\<dots> = snd (converse ?w1 ?b5 [messageIn])"
    by (rule converse_Cons [OF s5])
  also have "\<dots> = snd (handleFlow ?w1 ?b5 messageIn)"
    by (simp only: converse_single s6)
  finally show ?thesis by (simp only: b5)
qed

text \<open>
  Claim C1, as amended. After a trigger in \<open>IDLE\<close>, a valid name, a role, a valid e-mail
  address, a challenge and a last message, the lead data hold the five trimmed inputs,
  whether the delivery succeeded or not; after a delivery the state is \<open>IDLE\<close>.
\<close>

theorem full_traversal_outcome:
  assumes "flowState b = IDLE"
    and "t \<in> set triggers" and "toLowerCase trigger = pre @ t @ post"
    and "3 \<le> length (trim nameIn)"
    and "trim emailIn \<in> lang emailRegex"
  shows "leadData (fst (snd (converse w b [trigger, nameIn, roleIn, emailIn, challengeIn, messageIn])))
           = \<lparr>nome = Some (trim nameIn), cargo = Some (trim roleIn), email = Some (trim emailIn),
              desafio = Some (trim challengeIn), mensagem = Some (trim messageIn)\<rparr>
       \<and> (sendContactEmail w = Some f \<and> k < 3 \<and> (\<forall>i<k. f (length (sent w) + i) \<noteq> Fulfils)
            \<and> f (length (sent w) + k) = Fulfils
          \<longrightarrow> flowState (fst (snd (converse w b
                   [trigger, nameIn, roleIn, emailIn, challengeIn, messageIn]))) = IDLE)"
proof -
  let ?w1 = "if trackEvent w then w\<lparr>tracked := tracked w @ [ChatbotInitiated (isoTime w)]\<rparr> else w"
  let ?b5 = "b\<lparr>flowState := DUVIDA,
          leadData := \<lparr>nome = Some (trim nameIn), cargo = Some (trim roleIn),
                       email = Some (trim emailIn), desafio = Some (trim challengeIn),
                       mensagem = None\<rparr>\<rparr>"
  have last: "snd (converse w b [trigger, nameIn, roleIn, emailIn, challengeIn, messageIn])
                = snd (handleFlow ?w1 ?b5 messageIn)"
    by (rule traversal_terminal [OF assms])
  have st: "flowState ?b5 = DUVIDA" by simp
  have lead: "leadData (fst (snd (handleFlow ?w1 ?b5 messageIn)))
           = \<lparr>nome = Some (trim nameIn), cargo = Some (trim roleIn), email = Some (trim emailIn),
              desafio = Some (trim challengeIn), mensagem = Some (trim messageIn)\<rparr>"
    by (simp add: handleFlow_DUVIDA_leadData [OF st])
  have idle: "flowState (fst (snd (handleFlow ?w1 ?b5 messageIn))) = IDLE"
    if "sendContactEmail w = Some f" "k < 3" "\<forall>i<k. f (length (sent w) + i) \<noteq> Fulfils"
      "f (length (sent w) + k) = Fulfils"
  proof -
    have "sendContactEmail ?w1 = Some f" "\<forall>i<k. f (length (sent ?w1) + i) \<noteq> Fulfils"
      "f (length (sent ?w1) + k) = Fulfils"
      using that by simp_all
    from handleFlow_delivered [OF st this(1) that(2) this(2) this(3), of messageIn]
    show ?thesis by simp
  qed
  from lead idle show ?thesis unfolding last by blast
qed

theorem full_traversal_outcome_witness:
  "flowState newChatbot = IDLE
   \<and> ''quero'' \<in> set triggers
   \<and> toLowerCase (''quero or'' @ [CHR 0xE7] @ ''amento'')
       = [] @ ''quero'' @ ('' or'' @ [CHR 0xE7] @ ''amento'')
   \<and> 3 \<le> length (trim ''Ana Lima'')
   \<and> trim ''ana@clinica.com'' \<in> lang emailRegex
   \<and> sendContactEmail (sampleBrowser (Some failsTwice)) = Some failsTwice
   \<and> failsTwice (length (sent (sampleBrowser (Some failsTwice))) + 0) \<noteq> Fulfils
   \<and> failsTwice (length (sent (sampleBrowser (Some failsTwice))) + 1) \<noteq> Fulfils
   \<and> failsTwice (length (sent (sampleBrowser (Some failsTwice))) + 2) = Fulfils
   \<and> leadData (fst (snd (converse (sampleBrowser (Some failsTwice)) newChatbot sampleMessages)))
       = sampleLead
   \<and> flowState (fst (snd (converse (sampleBrowser (Some failsTwice)) newChatbot sampleMessages)))
       = IDLE"
proof -
  let ?w = "sampleBrowser (Some failsTwice)"
  have h1: "flowState newChatbot = IDLE" by (simp add: newChatbot_def)
  have h2: "''quero'' \<in> set triggers" by (simp add: triggers_def)
  note h3 = sample_trigger
  have h4: "3 \<le> length (trim ''Ana Lima'')" by (simp add: sample_trim)
  note h5 = sample_email
  have s1: "sendContactEmail ?w = Some failsTwice" by (simp add: sampleBrowser_def)
  have s2: "(2::nat) < 3" by simp
  have s3: "\<forall>i<2. failsTwice (length (sent ?w) + i) \<noteq> Fulfils"
    by (simp add: sampleBrowser_def failsTwice_def)
  have s4: "failsTwice (length (sent ?w) + 2) = Fulfils"
    by (simp add: sampleBrowser_def failsTwice_def)
  note T = full_traversal_outcome [OF h1 h2 h3 h4 h5,
      where roleIn = "''Diretora''" and challengeIn = "''Custos''" and messageIn = "''Sem duvida''"
        and w = ?w and f = failsTwice and k = 2]
  from T have "leadData (fst (snd (converse ?w newChatbot sampleMessages))) = sampleLead"
    by (simp add: sampleMessages_def sampleLead_def sample_trim)
  moreover from T s1 s2 s3 s4
  have "flowState (fst (snd (converse ?w newChatbot sampleMessages))) = IDLE"
    unfolding sampleMessages_def by blast
  moreover have "failsTwice (length (sent ?w) + 0) \<noteq> Fulfils"
    "failsTwice (length (sent ?w) + 1) \<noteq> Fulfils"
    by (simp_all add: sampleBrowser_def failsTwice_def)
  ultimately show ?thesis using h1 h2 h3 h4 h5 s1 s4 by (intro conjI)
qed

theorem full_traversal_counterexample:
  "leadData (fst (snd (converse (sampleBrowser (Some fulfilsAlways)) newChatbot sampleMessages)))
     = sampleLead
   \<and> sampleLead \<noteq> empty_lead
   \<and> flowState (fst (snd (converse (sampleBrowser (Some rejectsAlways)) newChatbot sampleMessages)))
     = DUVIDA
   \<and> leadData (fst (snd (converse (sampleBrowser (Some rejectsAlways)) newChatbot sampleMessages)))
     = sampleLead"
proof -
  have h1: "flowState newChatbot = IDLE" by (simp add: newChatbot_def)
  have h2: "''quero'' \<in> set triggers" by (simp add: triggers_def)
  have h4: "3 \<le> length (trim ''Ana Lima'')" by (simp add: sample_trim)
  have b5: "newChatbot\<lparr>flowState := DUVIDA,
          leadData := \<lparr>nome = Some (trim ''Ana Lima''), cargo = Some (trim ''Diretora''),
                       email = Some (trim ''ana@clinica.com''), desafio = Some (trim ''Custos''),
                       mensagem = None\<rparr>\<rparr> = closingChatbot"
    by (simp add: closingChatbot_def sampleLead_def sample_trim)
  have last: "snd (converse w newChatbot sampleMessages) =
     snd (handleFlow
       (if trackEvent w then w\<lparr>tracked := tracked w @ [ChatbotInitiated (isoTime w)]\<rparr> else w)
       closingChatbot ''Sem duvida'')" for w
    unfolding sampleMessages_def b5 [symmetric]
    by (rule traversal_terminal [OF h1 h2 sample_trigger h4 sample_email])
  have st: "flowState closingChatbot = DUVIDA" by (simp add: closingChatbot_def)
  have lead: "leadData (fst (snd (converse w newChatbot sampleMessages))) = sampleLead" for w
    unfolding last handleFlow_DUVIDA_leadData [OF st]
    by (simp add: closingChatbot_def sampleLead_def sample_trim)
  let ?w = "sampleBrowser (Some rejectsAlways)"
  let ?w1 = "if trackEvent ?w then ?w\<lparr>tracked := tracked ?w @ [ChatbotInitiated (isoTime ?w)]\<rparr> else ?w"
  have "sendContactEmail ?w1 = None
         \<or> (\<exists>f. sendContactEmail ?w1 = Some f \<and> (\<forall>i<3. f (length (sent ?w1) + i) \<noteq> Fulfils))"
    by (simp add: sampleBrowser_def rejectsAlways_def)
  from handleFlow_failed(2) [OF st this, of "''Sem duvida''"]
  have "flowState (fst (snd (converse ?w newChatbot sampleMessages))) = DUVIDA"
    unfolding last by (simp add: closingChatbot_def)
  moreover have "sampleLead \<noteq> empty_lead" by (simp add: sampleLead_def empty_lead_def)
  ultimately show ?thesis using lead by (intro conjI)
qed

end
